theory Spec2Isabelle
  imports Complex_Main "HOL-Library.Sublist"
begin

section \<open>Device tracker (loc.py): data model\<close>

text \<open>
  The development embeds the class \<open>DeviceTracker\<close> of \<open>loc.py\<close>. Python strings are
  modelled as lists of 8-bit characters read as code points 0..255; the wall clock
  (\<open>time.time()\<close>, a float in the source) is modelled as an exact real number, so
  rounding of floating-point timestamps is outside the model.

  Exceptions are values: a function that can raise returns \<open>exn + 'a\<close>, with
  \<open>Inl\<close> for the raised exception, or, where the state reached at the raise
  matters, the exception (if any) together with that state.
\<close>

datatype exn =
    FileNotFoundError string
  | IndexError string
  | UnboundLocalError string
  | KeyError string
  | ValueError string
  | OSError string
  | OverflowError string
  | OtherException string

text \<open>\<open>str(e)\<close>, as the f-strings of the handlers print it.\<close>

fun str_exn :: "exn \<Rightarrow> string" where
  "str_exn (FileNotFoundError m) = m"
| "str_exn (IndexError m) = m"
| "str_exn (UnboundLocalError m) = m"
| "str_exn (KeyError k) = [CHR 0x27] @ k @ [CHR 0x27]"
| "str_exn (ValueError m) = m"
| "str_exn (OSError m) = m"
| "str_exn (OverflowError m) = m"
| "str_exn (OtherException m) = m"

text \<open>
  A device is the dict built by the discovery scan: keys and values are strings. The
  association list keeps the insertion order of the dict.
\<close>

type_synonym device = "(string \<times> string) list"

record observation =
  timestamp :: real
  ip :: string
  mac :: string
  online :: bool

text \<open>The fields of a \<open>DeviceTracker\<close> object.\<close>

record tracker =
  log_file :: string
  tracked_devices :: "device list"
  device_logs :: "observation list"

text \<open>
  Everything outside the process that the code reads is scripted by an environment:
  the platform name, the outcome of each external command, the outcome and the
  duration of the reachability check of the k-th loop iteration, whether and how
  writing the log file fails in the k-th iteration, which sleep lengths the timer of
  the platform refuses, by how much the k-th sleep oversleeps, and the library functions
  that format values (\<open>json.dumps\<close>, \<open>time.ctime\<close>, \<open>repr\<close> of a dict).
\<close>

text \<open>
  The two ways the \<open>with open(...) as f: f.write(...)\<close> of an iteration can fail:
  \<open>open\<close> raises and the file is not touched, or \<open>open\<close> succeeds (which
  creates a missing file) and the write or the close raises after the first \<open>n\<close>
  characters of the line have reached the file.
\<close>

datatype write_failure =
    OpenFails exn
  | WriteFails exn nat

record env =
  platform_system :: string
  check_output :: "string list \<Rightarrow> exn + string"
  run_ping :: "nat \<Rightarrow> string list \<Rightarrow> exn + int"
  ping_time :: "nat \<Rightarrow> real"
  write_error :: "nat \<Rightarrow> write_failure option"
  sleep_error :: "real \<Rightarrow> exn option"
  oversleep :: "nat \<Rightarrow> real"
  json_dumps :: "observation \<Rightarrow> string"
  ctime :: "real \<Rightarrow> string"
  repr_device :: "device \<Rightarrow> string"

text \<open>
  What the code changes outside the object: the clock advances, the loop iterations
  are counted (the index into the script), files grow, lines are printed.
\<close>

record world =
  clock :: real
  ticks :: nat
  files :: "string \<rightharpoonup> string"
  console :: "string list"

definition print :: "string \<Rightarrow> world \<Rightarrow> world" where
  "print s w = w\<lparr>console := console w @ [s]\<rparr>"

section \<open>String operations of the Python library\<close>

definition nl :: string where
  "nl = [CHR 0x0A]"

text \<open>\<open>str.lower()\<close> on code points below 256.\<close>

definition lower_char :: "char \<Rightarrow> char" where
  "lower_char c =
     (let n = (of_char c :: nat)
      in if (65 \<le> n \<and> n \<le> 90) \<or> (192 \<le> n \<and> n \<le> 222 \<and> n \<noteq> 215)
         then char_of (n + 32) else c)"

definition lower :: "string \<Rightarrow> string" where
  "lower s = map lower_char s"

text \<open>\<open>str.isspace()\<close> on code points below 256.\<close>

definition isspace :: "char \<Rightarrow> bool" where
  "isspace c = ((of_char c :: nat) \<in> {9, 10, 11, 12, 13, 28, 29, 30, 31, 32, 133, 160})"

text \<open>\<open>s.split()\<close>: the maximal runs of non-whitespace characters.\<close>

fun split_ws_acc :: "string \<Rightarrow> string \<Rightarrow> string list" where
  "split_ws_acc cur [] = (if cur = [] then [] else [cur])"
| "split_ws_acc cur (c # cs) =
     (if isspace c
      then (if cur = [] then split_ws_acc [] cs else cur # split_ws_acc [] cs)
      else split_ws_acc (cur @ [c]) cs)"

definition split_ws :: "string \<Rightarrow> string list" where
  "split_ws s = split_ws_acc [] s"

text \<open>
  \<open>s.split(sep)\<close> for a non-empty separator (the source splits at a newline and at
  \<open>'MAC Address: '\<close> only).
\<close>

fun split_sep_acc :: "string \<Rightarrow> string \<Rightarrow> string \<Rightarrow> string list" where
  "split_sep_acc sep cur [] = [cur]"
| "split_sep_acc sep cur (c # cs) =
     (if prefix sep (c # cs)
      then cur # split_sep_acc sep [] (drop (length sep - 1) cs)
      else split_sep_acc sep (cur @ [c]) cs)"

definition split_sep :: "string \<Rightarrow> string \<Rightarrow> string list" where
  "split_sep sep s = split_sep_acc sep [] s"

text \<open>\<open>sub in s\<close>.\<close>

fun str_contains :: "string \<Rightarrow> string \<Rightarrow> bool" where
  "str_contains sub [] = (sub = [])"
| "str_contains sub (c # cs) = (prefix sub (c # cs) \<or> str_contains sub cs)"

text \<open>\<open>xs[i]\<close> for \<open>i \<ge> 0\<close> and \<open>xs[-1]\<close>, raising IndexError out of range.\<close>

definition py_index :: "'a list \<Rightarrow> nat \<Rightarrow> exn + 'a" where
  "py_index xs i = (if i < length xs then Inr (xs ! i) else Inl (IndexError ''list index out of range''))"

definition py_last :: "'a list \<Rightarrow> exn + 'a" where
  "py_last xs = (if xs = [] then Inl (IndexError ''list index out of range'') else Inr (last xs))"

text \<open>\<open>d[k]\<close>, raising KeyError, and \<open>d.get(k)\<close>.\<close>

definition dict_get :: "device \<Rightarrow> string \<Rightarrow> string option" where
  "dict_get d k = map_of d k"

definition dict_item :: "device \<Rightarrow> string \<Rightarrow> exn + string" where
  "dict_item d k = (case map_of d k of None \<Rightarrow> Inl (KeyError k) | Some v \<Rightarrow> Inr v)"

section \<open>Discovery: detect_network_devices\<close>

text \<open>
  The loop of the Windows branch over \<open>lines[3:]\<close>; \<open>acc\<close> is
  \<open>discovered_devices\<close>.
\<close>

fun arp_lines :: "string list \<Rightarrow> device list \<Rightarrow> device list" where
  "arp_lines [] acc = acc"
| "arp_lines (line # rest) acc =
     (let parts = split_ws line
      in if length parts \<ge> 3
         then arp_lines rest
                (acc @ [[(''ip'', parts ! 0), (''mac'', parts ! 1),
                         (''type'', if length parts > 2 then parts ! 2 else ''Unknown'')]])
         else arp_lines rest acc)"

text \<open>
  The loop of the nmap branch. \<open>cur_ip\<close> is the local variable \<open>ip\<close>, unbound
  (\<open>None\<close>) until the first report line. The result is the exception that ended
  the loop, if any, and \<open>discovered_devices\<close> at that moment.
\<close>

fun nmap_lines :: "string list \<Rightarrow> string option \<Rightarrow> device list \<Rightarrow> exn option \<times> device list" where
  "nmap_lines [] cur_ip acc = (None, acc)"
| "nmap_lines (line # rest) cur_ip acc =
     (if str_contains ''Nmap scan report for'' line then
        (case py_last (split_ws line) of
           Inl e \<Rightarrow> (Some e, acc)
         | Inr v \<Rightarrow> nmap_lines rest (Some v) acc)
      else if str_contains ''MAC Address:'' line then
        (case py_index (split_sep ''MAC Address: '' line) 1 of
           Inl e \<Rightarrow> (Some e, acc)
         | Inr rest_of_line \<Rightarrow>
             (case py_index (split_ws rest_of_line) 0 of
                Inl e \<Rightarrow> (Some e, acc)
              | Inr m \<Rightarrow>
                  (case cur_ip of
                     None \<Rightarrow> (Some (UnboundLocalError ''ip''), acc)
                   | Some i \<Rightarrow>
                       nmap_lines rest cur_ip
                         (acc @ [[(''ip'', i), (''mac'', m), (''type'', ''Unknown'')]]))))
      else nmap_lines rest cur_ip acc)"

text \<open>The inner \<open>try\<close> of the nmap branch, up to its \<open>except\<close> clause.\<close>

definition nmap_scan :: "env \<Rightarrow> exn option \<times> device list" where
  "nmap_scan env =
     (case check_output env [''nmap'', ''-sn'', ''192.168.1.0/24''] of
        Inl e \<Rightarrow> (Some e, [])
      | Inr output \<Rightarrow> nmap_lines (split_sep nl output) None [])"

text \<open>The body of the outer \<open>try\<close>: it raises (\<open>Inl\<close>) or returns a list.\<close>

definition detect_try :: "env \<Rightarrow> world \<Rightarrow> (exn + device list) \<times> world" where
  "detect_try env w =
     (let system = lower (platform_system env)
      in if system = ''windows'' then
           (case check_output env [''arp'', ''-a''] of
              Inl e \<Rightarrow> (Inl e, w)
            | Inr output \<Rightarrow> (Inr (arp_lines (drop 3 (split_sep nl output)) []), w))
         else if system \<in> set [''linux'', ''darwin''] then
           (case nmap_scan env of
              (None, ds) \<Rightarrow> (Inr ds, w)
            | (Some (FileNotFoundError m), ds) \<Rightarrow>
                (Inr ds, print ''Nmap not installed. Please install nmap for network scanning.'' w)
            | (Some e, ds) \<Rightarrow> (Inl e, w))
         else (Inr [], print (''Unsupported OS: '' @ system) w))"

text \<open>The whole method: the outer \<open>except Exception\<close> turns a raise into \<open>[]\<close>.\<close>

definition detect_network_devices :: "env \<Rightarrow> world \<Rightarrow> (exn + device list) \<times> world" where
  "detect_network_devices env w =
     (case detect_try env w of
        (Inl e, w') \<Rightarrow> (Inr [], print (''Error detecting network devices: '' @ str_exn e) w')
      | (Inr ds, w') \<Rightarrow> (Inr ds, w'))"

section \<open>Registry: add_device_to_track\<close>

text \<open>
  \<open>d.get('ip') or d.get('mac')\<close>: the ip when the dict has a non-empty one, else
  whatever \<open>d.get('mac')\<close> gives (possibly nothing).
\<close>

definition identity_key :: "device \<Rightarrow> string option" where
  "identity_key d =
     (case dict_get d ''ip'' of
        Some v \<Rightarrow> if v \<noteq> [] then Some v else dict_get d ''mac''
      | None \<Rightarrow> dict_get d ''mac'')"

text \<open>
  \<open>next((device for device in network_devices if device['ip'] == identifier or
  device['mac'] == identifier), None)\<close>: the first match, \<open>None\<close> without one; a
  missing key raises.
\<close>

fun find_match :: "string \<Rightarrow> device list \<Rightarrow> exn + device option" where
  "find_match ident [] = Inr None"
| "find_match ident (d # ds) =
     (case dict_item d ''ip'' of
        Inl e \<Rightarrow> Inl e
      | Inr i \<Rightarrow>
          if i = ident then Inr (Some d)
          else (case dict_item d ''mac'' of
                  Inl e \<Rightarrow> Inl e
                | Inr m \<Rightarrow> if m = ident then Inr (Some d) else find_match ident ds))"

definition add_device_to_track ::
    "env \<Rightarrow> string \<Rightarrow> tracker \<Rightarrow> world \<Rightarrow> (exn + bool) \<times> tracker \<times> world" where
  "add_device_to_track env device_identifier t w =
     (if device_identifier = [] then
        (Inr False, t, print ''Invalid device identifier'' w)
      else if Some device_identifier \<in> set (map identity_key (tracked_devices t)) then
        (Inr False, t, print ''Device is already being tracked'' w)
      else
        (case detect_network_devices env w of
           (Inl e, w') \<Rightarrow> (Inl e, t, w')
         | (Inr network_devices, w') \<Rightarrow>
             (case find_match device_identifier network_devices of
                Inl e \<Rightarrow> (Inl e, t, w')
              | Inr matching_device \<Rightarrow>
                  (case matching_device of
                     Some d \<Rightarrow>
                       if d \<noteq> [] then
                         (Inr True, t\<lparr>tracked_devices := tracked_devices t @ [d]\<rparr>,
                          print (''Added device to tracking: '' @ repr_device env d) w')
                       else
                         (Inr False, t,
                          print (''Could not find device '' @ device_identifier @ '' on network'') w')
                   | None \<Rightarrow>
                       (Inr False, t,
                        print (''Could not find device '' @ device_identifier @ '' on network'') w')))))"

section \<open>Poller: track_device\<close>

text \<open>
  The body of the \<open>try\<close> of one loop iteration. The result is the exception that
  left the block, if any, with the object and the world as they are at that moment.
  The reachability check of iteration \<open>k = ticks w\<close> takes \<open>ping_time env k\<close>
  seconds whether it returns or raises. When opening the log file fails the file is
  left as it was; when the write fails after the file was opened, the file holds the
  characters of the line that got through.
\<close>

definition track_try :: "env \<Rightarrow> device \<Rightarrow> tracker \<Rightarrow> world \<Rightarrow> exn option \<times> tracker \<times> world" where
  "track_try env device t w =
     (let param = (if lower (platform_system env) = ''windows'' then ''-n'' else ''-c'')
      in case dict_item device ''ip'' of
           Inl e \<Rightarrow> (Some e, t, w)
         | Inr dev_ip \<Rightarrow>
             (let w1 = w\<lparr>clock := clock w + ping_time env (ticks w)\<rparr>
              in case run_ping env (ticks w) [''ping'', param, ''4'', dev_ip] of
                   Inl e \<Rightarrow> (Some e, t, w1)
                 | Inr returncode \<Rightarrow>
                     (let device_status =
                            \<lparr>timestamp = clock w1,
                             ip = dev_ip,
                             mac = (case dict_get device ''mac'' of None \<Rightarrow> ''Unknown'' | Some m \<Rightarrow> m),
                             online = (returncode = 0)\<rparr>;
                          t1 = t\<lparr>device_logs := device_logs t @ [device_status]\<rparr>;
                          old = (case files w1 (log_file t1) of None \<Rightarrow> [] | Some c \<Rightarrow> c);
                          line = json_dumps env device_status @ nl
                      in case write_error env (ticks w) of
                           Some (OpenFails e) \<Rightarrow> (Some e, t1, w1)
                         | Some (WriteFails e n) \<Rightarrow>
                             (Some e, t1,
                              w1\<lparr>files := (files w1)(log_file t1 \<mapsto> old @ take n line)\<rparr>)
                         | None \<Rightarrow>
                             (let w2 = w1\<lparr>files := (files w1)(log_file t1 \<mapsto> old @ line)\<rparr>
                              in (None, t1,
                                  print (''Device '' @ dev_ip @ '' status: '' @
                                         (if online device_status then ''Online'' else ''Offline''))
                                        w2)))))"

text \<open>
  \<open>time.sleep(secs)\<close>: a negative length raises ValueError, and a length that the
  timer of the platform cannot take (from about 9.2e9 seconds on) raises OSError or
  OverflowError, as \<open>sleep_error env\<close> says. No time passes when it raises.
\<close>

definition sleep :: "env \<Rightarrow> real \<Rightarrow> world \<Rightarrow> exn + world" where
  "sleep env secs w =
     (if secs < 0 then Inl (ValueError ''sleep length must be non-negative'')
      else case sleep_error env secs of
             Some e \<Rightarrow> Inl e
           | None \<Rightarrow> Inr (w\<lparr>clock := clock w + secs + oversleep env (ticks w)\<rparr>))"

text \<open>
  One iteration of the loop: the \<open>try\<close>, its \<open>except Exception\<close> handler (whose
  f-string reads \<open>device['ip']\<close> again and so can raise itself), then the sleep.
\<close>

definition track_tick ::
    "env \<Rightarrow> device \<Rightarrow> real \<Rightarrow> tracker \<Rightarrow> world \<Rightarrow> exn option \<times> tracker \<times> world" where
  "track_tick env device interval t w =
     (let handled =
            (case track_try env device t w of
               (None, t1, w1) \<Rightarrow> (None, t1, w1)
             | (Some e, t1, w1) \<Rightarrow>
                 (case dict_item device ''ip'' of
                    Inl e' \<Rightarrow> (Some e', t1, w1)
                  | Inr dev_ip \<Rightarrow>
                      (None, t1,
                       print (''Error tracking device '' @ dev_ip @ '': '' @ str_exn e) w1)))
      in case handled of
           (Some e, t1, w1) \<Rightarrow> (Some e, t1, w1)
         | (None, t1, w1) \<Rightarrow>
             (case sleep env interval w1 of
                Inl e \<Rightarrow> (Some e, t1, w1)
              | Inr w2 \<Rightarrow> (None, t1, w2\<lparr>ticks := Suc (ticks w2)\<rparr>)))"

text \<open>
  The \<open>while\<close> loop. It may run forever (an interval of 0 with a check that takes
  no time), so not returning is the value \<open>None\<close>; \<open>Some (Some e, _)\<close> is an
  exception that leaves the method, \<open>Some (None, _)\<close> a normal return.
\<close>

partial_function (option) track_loop ::
    "env \<Rightarrow> device \<Rightarrow> real \<Rightarrow> real \<Rightarrow> real \<Rightarrow> tracker \<Rightarrow> world
       \<Rightarrow> (exn option \<times> tracker \<times> world) option" where
  "track_loop env device interval duration start_time t w =
     (if clock w - start_time < duration then
        (case track_tick env device interval t w of
           (Some e, t', w') \<Rightarrow> Some (Some e, t', w')
         | (None, t', w') \<Rightarrow> track_loop env device interval duration start_time t' w')
      else Some (None, t, w))"

definition track_device ::
    "env \<Rightarrow> device \<Rightarrow> real \<Rightarrow> real \<Rightarrow> tracker \<Rightarrow> world
       \<Rightarrow> (exn option \<times> tracker \<times> world) option" where
  "track_device env device interval duration t w =
     (let start_time = clock w;
          w1 = print (''Starting tracking for device: '' @ repr_device env device) w
      in track_loop env device interval duration start_time t w1)"

section \<open>Summary: display_tracking_summary\<close>

text \<open>The five lines printed for one entry of \<open>device_logs\<close>.\<close>

definition record_block :: "env \<Rightarrow> observation \<Rightarrow> string list" where
  "record_block env entry =
     [''Time: '' @ ctime env (timestamp entry),
      ''IP: '' @ ip entry,
      ''MAC: '' @ mac entry,
      ''Status: '' @ (if online entry then ''Online'' else ''Offline''),
      ''---'']"

fun summary_loop :: "env \<Rightarrow> observation list \<Rightarrow> world \<Rightarrow> world" where
  "summary_loop env [] w = w"
| "summary_loop env (entry # rest) w =
     summary_loop env rest
       (print ''---''
         (print (''Status: '' @ (if online entry then ''Online'' else ''Offline''))
           (print (''MAC: '' @ mac entry)
             (print (''IP: '' @ ip entry)
               (print (''Time: '' @ ctime env (timestamp entry)) w)))))"

definition display_tracking_summary :: "env \<Rightarrow> tracker \<Rightarrow> world \<Rightarrow> world" where
  "display_tracking_summary env t w =
     (if device_logs t = [] then print ''No device tracking data available.'' w
      else summary_loop env (device_logs t) (print (nl @ ''--- Device Tracking Summary ---'') w))"

section \<open>Predicates used in the statements\<close>

text \<open>A device dict that has both keys the registry reads with \<open>d['ip']\<close> and \<open>d['mac']\<close>.\<close>

definition has_keys :: "device \<Rightarrow> bool" where
  "has_keys d = (map_of d ''ip'' \<noteq> None \<and> map_of d ''mac'' \<noteq> None)"

text \<open>The condition of the generator in \<open>add_device_to_track\<close>, for a device with both keys.\<close>

definition matches :: "string \<Rightarrow> device \<Rightarrow> bool" where
  "matches ident d = (dict_get d ''ip'' = Some ident \<or> dict_get d ''mac'' = Some ident)"

text \<open>
  The failure conditions of a scan: the platform is none of the three the code knows, or
  the external tool or the parsing of its output raises.
\<close>

definition scan_failed :: "env \<Rightarrow> bool" where
  "scan_failed env =
     (let system = lower (platform_system env)
      in if system = ''windows'' then isl (check_output env [''arp'', ''-a''])
         else if system \<in> set [''linux'', ''darwin''] then fst (nmap_scan env) \<noteq> None
         else True)"

text \<open>The command line of the reachability check for the address \<open>a\<close>.\<close>

definition ping_command :: "env \<Rightarrow> string \<Rightarrow> string list" where
  "ping_command env a =
     [''ping'', if lower (platform_system env) = ''windows'' then ''-n'' else ''-c'', ''4'', a]"

text \<open>
  The dict \<open>device_status\<close> that an iteration starting in world \<open>w\<close> builds for a
  device with address \<open>a\<close> whose check exits with \<open>returncode\<close>.
\<close>

definition device_status :: "env \<Rightarrow> device \<Rightarrow> string \<Rightarrow> int \<Rightarrow> world \<Rightarrow> observation" where
  "device_status env device a returncode w =
     \<lparr>timestamp = clock w + ping_time env (ticks w),
      ip = a,
      mac = (case dict_get device ''mac'' of None \<Rightarrow> ''Unknown'' | Some m \<Rightarrow> m),
      online = (returncode = 0)\<rparr>"

text \<open>The content of a file; a file that does not exist has none.\<close>

definition file_content :: "world \<Rightarrow> string \<Rightarrow> string" where
  "file_content w path = (case files w path of None \<Rightarrow> [] | Some c \<Rightarrow> c)"

text \<open>
  The lines of a file are the pieces of \<open>content.split('\n')\<close> but the last, which
  is what follows the last newline; the file ends at a line boundary when that piece is
  empty.
\<close>

definition file_lines :: "string \<Rightarrow> string list" where
  "file_lines content = butlast (split_sep nl content)"

definition ends_at_line_boundary :: "string \<Rightarrow> bool" where
  "ends_at_line_boundary content = (last (split_sep nl content) = [])"

text \<open>
  The correspondence between memory and file: the log file ends at a line boundary, and
  its last lines are the JSON encodings of the observations of \<open>device_logs\<close>, one
  line each, in their order (the file is opened for appending, so it may begin with the
  lines of earlier runs).
\<close>

definition log_in_sync :: "env \<Rightarrow> tracker \<Rightarrow> world \<Rightarrow> bool" where
  "log_in_sync env t w =
     (ends_at_line_boundary (file_content w (log_file t))
      \<and> suffix (map (json_dumps env) (device_logs t))
                (file_lines (file_content w (log_file t))))"

section \<open>A concrete scenario\<close>

text \<open>
  A Linux host whose nmap scan reports one device, 192.168.1.50 with MAC address
  AA:BB:CC:DD:EE:FF; every reachability check answers at once with exit code 0.
\<close>

definition scenario_output :: string where
  "scenario_output =
     ''Starting Nmap 7.80'' @ nl @
     ''Nmap scan report for 192.168.1.50'' @ nl @
     ''Host is up (0.0010s latency).'' @ nl @
     ''MAC Address: AA:BB:CC:DD:EE:FF (Unknown)'' @ nl"

definition scenario_env :: env where
  "scenario_env =
     \<lparr>platform_system = ''Linux'',
      check_output = (\<lambda>cmd. Inr scenario_output),
      run_ping = (\<lambda>k args. Inr 0),
      ping_time = (\<lambda>k. 0),
      write_error = (\<lambda>k. None),
      sleep_error =
        (\<lambda>secs. if 9223372037 \<le> secs
                then Some (OverflowError ''timestamp too large to convert to C PyTime_t'')
                else if 9223372035 \<le> secs then Some (OSError ''[Errno 22] Invalid argument'')
                else None),
      oversleep = (\<lambda>k. 0),
      json_dumps = (\<lambda>obs. ''{}''),
      ctime = (\<lambda>ts. ''Thu Jan  1 00:00:00 1970''),
      repr_device = (\<lambda>d. concat (map (\<lambda>(k, v). k @ ''='' @ v @ '';'') d))\<rparr>"

definition missing_tool_env :: env where
  "missing_tool_env =
     scenario_env\<lparr>check_output := (\<lambda>cmd. Inl (FileNotFoundError ''No such file or directory''))\<rparr>"

definition fresh_tracker :: tracker where
  "fresh_tracker = \<lparr>log_file = ''device_log.txt'', tracked_devices = [], device_logs = []\<rparr>"

definition initial_world :: world where
  "initial_world = \<lparr>clock = 0, ticks = 0, files = Map.empty, console = []\<rparr>"

definition scenario_device :: device where
  "scenario_device =
     [(''ip'', ''192.168.1.50''), (''mac'', ''AA:BB:CC:DD:EE:FF''), (''type'', ''Unknown'')]"

definition two_observations :: "observation list" where
  "two_observations =
     [\<lparr>timestamp = 0, ip = ''192.168.1.50'', mac = ''AA:BB:CC:DD:EE:FF'', online = True\<rparr>,
      \<lparr>timestamp = 60, ip = ''192.168.1.50'', mac = ''AA:BB:CC:DD:EE:FF'', online = False\<rparr>]"

text \<open>
  The same host with a log file that cannot be opened, with a log file whose every write
  is cut off after the first character, and with no ping tool.
\<close>

definition failing_write_env :: env where
  "failing_write_env =
     scenario_env\<lparr>write_error :=
       (\<lambda>k. Some (OpenFails (OSError ''[Errno 13] Permission denied'')))\<rparr>"

definition partial_write_env :: env where
  "partial_write_env =
     scenario_env\<lparr>write_error :=
       (\<lambda>k. Some (WriteFails (OSError ''[Errno 27] File too large'') 1))\<rparr>"

definition failing_ping_env :: env where
  "failing_ping_env =
     scenario_env\<lparr>run_ping := (\<lambda>k args. Inl (FileNotFoundError ''No such file or directory''))\<rparr>"

text \<open>The same host with an nmap that prints a line that does not parse, and a platform
  the code does not know.\<close>

definition garbled_output_env :: env where
  "garbled_output_env =
     scenario_env\<lparr>check_output := (\<lambda>cmd. Inr ''MAC Address: AA:BB:CC:DD:EE:FF'')\<rparr>"

definition unsupported_os_env :: env where
  "unsupported_os_env = scenario_env\<lparr>platform_system := ''Java''\<rparr>"

section \<open>Basic facts\<close>

lemma print_simps [simp]:
  "console (print s w) = console w @ [s]"
  "clock (print s w) = clock w"
  "ticks (print s w) = ticks w"
  "files (print s w) = files w"
  by (simp_all add: print_def)

section \<open>Discovery never raises\<close>

lemma has_keys_built: "has_keys [(''ip'', a), (''mac'', b), (''type'', c)]"
  by (simp add: has_keys_def)

lemma arp_lines_keys:
  "\<forall>d \<in> set acc. has_keys d \<Longrightarrow> \<forall>d \<in> set (arp_lines ls acc). has_keys d"
proof (induction ls arbitrary: acc)
  case Nil
  then show ?case by simp
next
  case (Cons line rest)
  show ?case
  proof (cases "length (split_ws line) \<ge> 3")
    case True
    have "\<forall>d \<in> set (acc @ [[(''ip'', split_ws line ! 0), (''mac'', split_ws line ! 1),
             (''type'', split_ws line ! 2)]]). has_keys d"
      using Cons.prems has_keys_built by auto
    then have "\<forall>d \<in> set (arp_lines rest (acc @ [[(''ip'', split_ws line ! 0),
             (''mac'', split_ws line ! 1), (''type'', split_ws line ! 2)]])). has_keys d"
      by (rule Cons.IH)
    then show ?thesis using True by (simp add: Let_def)
  next
    case False
    then show ?thesis using Cons by (simp add: Let_def)
  qed
qed

lemma nmap_lines_keys:
  "\<forall>d \<in> set acc. has_keys d \<Longrightarrow> \<forall>d \<in> set (snd (nmap_lines ls c acc)). has_keys d"
proof (induction ls arbitrary: c acc)
  case Nil
  then show ?case by simp
next
  case (Cons line rest)
  have ext: "\<forall>d \<in> set (acc @ [[(''ip'', i), (''mac'', m), (''type'', ''Unknown'')]]). has_keys d" for i m
    using Cons.prems has_keys_built by auto
  show ?case
    using Cons.IH [OF Cons.prems] Cons.IH [OF ext] Cons.prems
    by (simp split: sum.splits option.splits)
qed

text \<open>
  Parsing raises IndexError or UnboundLocalError only, so the clause
  \<open>except FileNotFoundError\<close> is entered only when the tool itself is missing, before
  anything was appended to \<open>discovered_devices\<close>.
\<close>

lemma nmap_lines_not_fnf:
  "fst (nmap_lines ls c acc) \<noteq> Some (FileNotFoundError m)"
proof (induction ls arbitrary: c acc)
  case Nil
  then show ?case by simp
next
  case (Cons line rest)
  show ?case
    using Cons.IH
    by (simp add: py_index_def py_last_def split: sum.splits option.splits)
qed

lemma nmap_scan_fnf:
  assumes "nmap_scan env = (Some (FileNotFoundError m), ds)"
  shows "ds = []"
proof (cases "check_output env [''nmap'', ''-sn'', ''192.168.1.0/24'']")
  case (Inl e)
  with assms show ?thesis by (simp add: nmap_scan_def)
next
  case (Inr out)
  with assms have "fst (nmap_lines (split_sep nl out) None []) = Some (FileNotFoundError m)"
    by (simp add: nmap_scan_def)
  with nmap_lines_not_fnf show ?thesis by blast
qed

lemma nmap_scan_keys: "\<forall>d \<in> set (snd (nmap_scan env)). has_keys d"
proof (cases "check_output env [''nmap'', ''-sn'', ''192.168.1.0/24'']")
  case (Inl e)
  then show ?thesis by (simp add: nmap_scan_def)
next
  case (Inr out)
  have "\<forall>d \<in> set (snd (nmap_lines (split_sep nl out) None [])). has_keys d"
    by (rule nmap_lines_keys) simp
  with Inr show ?thesis by (simp add: nmap_scan_def)
qed

text \<open>What the method returns and prints, case by case.\<close>

lemma detect_windows_fail:
  assumes "lower (platform_system env) = ''windows''" "check_output env [''arp'', ''-a''] = Inl e"
  shows "detect_network_devices env w =
           (Inr [], print (''Error detecting network devices: '' @ str_exn e) w)"
  using assms by (simp add: detect_network_devices_def detect_try_def)

lemma detect_windows_ok:
  assumes "lower (platform_system env) = ''windows''" "check_output env [''arp'', ''-a''] = Inr out"
  shows "detect_network_devices env w = (Inr (arp_lines (drop 3 (split_sep nl out)) []), w)"
  using assms by (simp add: detect_network_devices_def detect_try_def)

lemma detect_unsupported:
  assumes "lower (platform_system env) \<noteq> ''windows''"
    "lower (platform_system env) \<notin> set [''linux'', ''darwin'']"
  shows "detect_network_devices env w =
           (Inr [], print (''Unsupported OS: '' @ lower (platform_system env)) w)"
  using assms by (simp add: detect_network_devices_def detect_try_def Let_def)

lemma detect_nmap_ok:
  assumes "lower (platform_system env) \<noteq> ''windows''"
    "lower (platform_system env) \<in> set [''linux'', ''darwin'']"
    "nmap_scan env = (None, ds)"
  shows "detect_network_devices env w = (Inr ds, w)"
  using assms by (simp add: detect_network_devices_def detect_try_def Let_def)

lemma detect_nmap_fail:
  assumes "lower (platform_system env) \<noteq> ''windows''"
    "lower (platform_system env) \<in> set [''linux'', ''darwin'']"
    "nmap_scan env = (Some e, ds)"
  shows "detect_network_devices env w =
           (Inr [], print (case e of
               FileNotFoundError m \<Rightarrow> ''Nmap not installed. Please install nmap for network scanning.''
             | _ \<Rightarrow> ''Error detecting network devices: '' @ str_exn e) w)"
proof (cases e)
  case (FileNotFoundError m)
  with assms(3) have "ds = []" using nmap_scan_fnf by blast
  with assms FileNotFoundError show ?thesis
    by (simp add: detect_network_devices_def detect_try_def Let_def)
qed (use assms in \<open>simp_all add: detect_network_devices_def detect_try_def Let_def\<close>)

text \<open>
  Claim C6. The discovery operation never raises to its caller: for every platform value
  and every behaviour of the external scan tool it returns a list (the result is always
  \<open>Inr\<close>). When the scan fails (the tool is missing or raises, the platform is not
  supported, the output does not parse) the list is empty and exactly one message has been
  printed; otherwise nothing is printed. Clock and files are untouched.
\<close>

theorem detect_network_devices_never_raises:
  "\<exists>ds w'. detect_network_devices env w = (Inr ds, w')
      \<and> clock w' = clock w \<and> ticks w' = ticks w \<and> files w' = files w
      \<and> (if scan_failed env then ds = [] \<and> (\<exists>msg. console w' = console w @ [msg])
          else console w' = console w)"
proof -
  let ?sys = "lower (platform_system env)"
  consider (win) "?sys = ''windows''"
    | (nix) "?sys \<noteq> ''windows''" "?sys \<in> set [''linux'', ''darwin'']"
    | (other) "?sys \<noteq> ''windows''" "?sys \<notin> set [''linux'', ''darwin'']"
    by blast
  then show ?thesis
  proof cases
    case win
    show ?thesis
    proof (cases "check_output env [''arp'', ''-a'']")
      case (Inl e)
      have "scan_failed env" using win Inl by (simp add: scan_failed_def)
      then show ?thesis using detect_windows_fail [OF win Inl] by simp
    next
      case (Inr out)
      have "\<not> scan_failed env" using win Inr by (simp add: scan_failed_def)
      then show ?thesis using detect_windows_ok [OF win Inr] by simp
    qed
  next
    case nix
    obtain r ds where scan: "nmap_scan env = (r, ds)" by (cases "nmap_scan env")
    show ?thesis
    proof (cases r)
      case None
      have "\<not> scan_failed env" using nix scan None by (simp add: scan_failed_def Let_def)
      then show ?thesis using detect_nmap_ok [OF nix] scan None by simp
    next
      case (Some e)
      have "scan_failed env" using nix scan Some by (simp add: scan_failed_def Let_def)
      then show ?thesis using detect_nmap_fail [OF nix] scan Some by simp
    qed
  next
    case other
    have "scan_failed env" using other by (simp add: scan_failed_def Let_def)
    then show ?thesis using detect_unsupported [OF other] by simp
  qed
qed

theorem detect_network_devices_never_raises_witness:
  "(\<exists>ds w'. detect_network_devices missing_tool_env initial_world = (Inr ds, w')
       \<and> ds = [] \<and> (\<exists>msg. console w' = console initial_world @ [msg]))
   \<and> (\<exists>ds w'. detect_network_devices unsupported_os_env initial_world = (Inr ds, w')
       \<and> ds = [] \<and> (\<exists>msg. console w' = console initial_world @ [msg]))
   \<and> (\<exists>ds w'. detect_network_devices garbled_output_env initial_world = (Inr ds, w')
       \<and> ds = [] \<and> (\<exists>msg. console w' = console initial_world @ [msg]))
   \<and> (\<exists>ds w'. detect_network_devices scenario_env initial_world = (Inr ds, w')
       \<and> console w' = console initial_world)"
proof -
  have missing: "scan_failed missing_tool_env" by code_simp
  have unsupported: "scan_failed unsupported_os_env" by code_simp
  have garbled: "scan_failed garbled_output_env" by code_simp
  have fine: "\<not> scan_failed scenario_env" by code_simp
  from missing detect_network_devices_never_raises [of missing_tool_env initial_world]
  have a: "\<exists>ds w'. detect_network_devices missing_tool_env initial_world = (Inr ds, w')
       \<and> ds = [] \<and> (\<exists>msg. console w' = console initial_world @ [msg])"
    by auto
  from unsupported detect_network_devices_never_raises [of unsupported_os_env initial_world]
  have b: "\<exists>ds w'. detect_network_devices unsupported_os_env initial_world = (Inr ds, w')
       \<and> ds = [] \<and> (\<exists>msg. console w' = console initial_world @ [msg])"
    by auto
  from garbled detect_network_devices_never_raises [of garbled_output_env initial_world]
  have c: "\<exists>ds w'. detect_network_devices garbled_output_env initial_world = (Inr ds, w')
       \<and> ds = [] \<and> (\<exists>msg. console w' = console initial_world @ [msg])"
    by auto
  from fine detect_network_devices_never_raises [of scenario_env initial_world]
  have d: "\<exists>ds w'. detect_network_devices scenario_env initial_world = (Inr ds, w')
       \<and> console w' = console initial_world"
    by auto
  from a b c d show ?thesis by blast
qed

text \<open>Every device a scan returns has the keys \<open>ip\<close> and \<open>mac\<close>.\<close>

lemma detect_keys:
  assumes det: "detect_network_devices env w = (Inr ds, w')"
  shows "\<forall>d \<in> set ds. has_keys d"
proof -
  let ?sys = "lower (platform_system env)"
  consider (win) "?sys = ''windows''"
    | (nix) "?sys \<noteq> ''windows''" "?sys \<in> set [''linux'', ''darwin'']"
    | (other) "?sys \<noteq> ''windows''" "?sys \<notin> set [''linux'', ''darwin'']"
    by blast
  then show ?thesis
  proof cases
    case win
    show ?thesis
    proof (cases "check_output env [''arp'', ''-a'']")
      case (Inl e)
      then show ?thesis using detect_windows_fail [OF win Inl, of w] det by simp
    next
      case (Inr out)
      have "\<forall>d \<in> set (arp_lines (drop 3 (split_sep nl out)) []). has_keys d"
        by (rule arp_lines_keys) simp
      then show ?thesis using detect_windows_ok [OF win Inr, of w] det by simp
    qed
  next
    case nix
    obtain r ds' where scan: "nmap_scan env = (r, ds')" by (cases "nmap_scan env")
    show ?thesis
    proof (cases r)
      case None
      then show ?thesis using detect_nmap_ok [OF nix, of ds' w] scan det nmap_scan_keys [of env]
        by simp
    next
      case (Some e)
      then show ?thesis using detect_nmap_fail [OF nix, of e ds' w] scan det by simp
    qed
  next
    case other
    then show ?thesis using detect_unsupported [OF other, of w] det by simp
  qed
qed

section \<open>The registry\<close>

lemma find_match_keys:
  "\<forall>d \<in> set ds. has_keys d \<Longrightarrow> find_match ident ds = Inr (find (matches ident) ds)"
proof (induction ds)
  case Nil
  then show ?case by simp
next
  case (Cons d ds)
  then obtain a b where ab: "map_of d ''ip'' = Some a" "map_of d ''mac'' = Some b"
    by (auto simp: has_keys_def)
  from Cons have IH: "find_match ident ds = Inr (find (matches ident) ds)" by simp
  have m: "matches ident d = (a = ident \<or> b = ident)"
    using ab by (simp add: matches_def dict_get_def)
  show ?case using ab IH m by (simp add: dict_item_def)
qed

lemma find_matches_nonempty: "find (matches ident) ds = Some d \<Longrightarrow> d \<noteq> []"
  by (auto simp: find_Some_iff matches_def dict_get_def)

lemma scenario_system: "lower (platform_system scenario_env) = ''linux''"
  by code_simp

lemma scenario_nmap_scan: "nmap_scan scenario_env = (None, [scenario_device])"
  by code_simp

lemma scenario_scan:
  "detect_network_devices scenario_env w = (Inr [scenario_device], w)"
  by (rule detect_nmap_ok) (simp_all add: scenario_system scenario_nmap_scan)

lemma add_rejects_empty:
  "add_device_to_track env [] t w = (Inr False, t, print ''Invalid device identifier'' w)"
  by (simp add: add_device_to_track_def)

lemma add_rejects_tracked_key:
  assumes "ident \<noteq> []" "Some ident \<in> set (map identity_key (tracked_devices t))"
  shows "add_device_to_track env ident t w =
           (Inr False, t, print ''Device is already being tracked'' w)"
  using assms by (simp add: add_device_to_track_def)

lemma add_after_scan:
  assumes "ident \<noteq> []" "Some ident \<notin> set (map identity_key (tracked_devices t))"
    and scan: "detect_network_devices env w = (Inr ds, w')"
  shows "add_device_to_track env ident t w =
           (case find (matches ident) ds of
              Some d \<Rightarrow> (Inr True, t\<lparr>tracked_devices := tracked_devices t @ [d]\<rparr>,
                         print (''Added device to tracking: '' @ repr_device env d) w')
            | None \<Rightarrow> (Inr False, t,
                        print (''Could not find device '' @ ident @ '' on network'') w'))"
proof -
  have fm: "find_match ident ds = Inr (find (matches ident) ds)"
    using detect_keys [OF scan] by (rule find_match_keys)
  show ?thesis
  proof (cases "find (matches ident) ds")
    case None
    with assms fm show ?thesis by (simp add: add_device_to_track_def)
  next
    case (Some d)
    then have "d \<noteq> []" by (rule find_matches_nonempty)
    with assms fm Some show ?thesis by (simp add: add_device_to_track_def)
  qed
qed

text \<open>
  Claim C4. For every identifier and every result \<open>ds\<close> of a fresh discovery scan,
  \<open>add_device_to_track\<close> returns false exactly when the identifier is empty, or it is
  the identity key of a tracked device, or no device of the scan has that ip or that mac;
  a rejected call leaves the object unchanged. Otherwise it returns true and appends the
  first matching device of the scan to the registry. In particular it returns false for
  every identifier when the scan returns the empty list.
\<close>

theorem add_device_to_track_result:
  assumes scan: "detect_network_devices env w = (Inr ds, w')"
  shows "(let rejected = (ident = []
                \<or> Some ident \<in> set (map identity_key (tracked_devices t))
                \<or> \<not> (\<exists>d \<in> set ds. matches ident d))
          in fst (add_device_to_track env ident t w) = Inr (\<not> rejected)
             \<and> (rejected \<longrightarrow> fst (snd (add_device_to_track env ident t w)) = t)
             \<and> (\<not> rejected \<longrightarrow>
                   (\<exists>d. find (matches ident) ds = Some d
                      \<and> fst (snd (add_device_to_track env ident t w))
                          = t\<lparr>tracked_devices := tracked_devices t @ [d]\<rparr>)))
         \<and> (ds = [] \<longrightarrow> fst (add_device_to_track env ident t w) = Inr False)"
proof -
  consider (empty) "ident = []"
    | (tracked) "ident \<noteq> []" "Some ident \<in> set (map identity_key (tracked_devices t))"
    | (scan) "ident \<noteq> []" "Some ident \<notin> set (map identity_key (tracked_devices t))"
    by blast
  then show ?thesis
  proof cases
    case empty
    then show ?thesis by (simp add: add_rejects_empty)
  next
    case tracked
    then show ?thesis by (simp add: add_rejects_tracked_key)
  next
    case scan
    note eq = add_after_scan [OF scan assms]
    show ?thesis
    proof (cases "find (matches ident) ds")
      case None
      then have "\<not> (\<exists>d \<in> set ds. matches ident d)" by (simp add: find_None_iff)
      with scan None eq show ?thesis by simp
    next
      case (Some d)
      then have "\<exists>d \<in> set ds. matches ident d" by (auto simp: find_Some_iff)
      moreover from this have "ds \<noteq> []" by auto
      ultimately show ?thesis using scan Some eq by simp
    qed
  qed
qed

theorem add_device_to_track_result_witness:
  "fst (add_device_to_track scenario_env ''192.168.1.50'' fresh_tracker initial_world) = Inr True
   \<and> fst (snd (add_device_to_track scenario_env ''192.168.1.50'' fresh_tracker initial_world))
       = fresh_tracker\<lparr>tracked_devices := [scenario_device]\<rparr>
   \<and> fst (add_device_to_track scenario_env ''10.0.0.9'' fresh_tracker initial_world) = Inr False"
proof -
  have m1: "matches ''192.168.1.50'' scenario_device" by code_simp
  have m2: "\<not> matches ''10.0.0.9'' scenario_device" by code_simp
  have tr: "tracked_devices fresh_tracker = []" by (simp add: fresh_tracker_def)
  show ?thesis
    using add_device_to_track_result [OF scenario_scan, where ident = "''192.168.1.50''" and w = initial_world and t = fresh_tracker]
      add_device_to_track_result [OF scenario_scan, where ident = "''10.0.0.9''" and w = initial_world and t = fresh_tracker]
      m1 m2 tr
    by (simp add: Let_def)
qed

text \<open>
  Adding by ip twice: once a device found by its ip is in the registry, a second call with
  the same identifier is rejected and changes nothing, whatever the second scan would
  return.
\<close>

lemma add_same_ip_twice_rejected:
  assumes scan: "detect_network_devices env w = (Inr ds, w')"
    and found: "find (matches ident) ds = Some d"
    and by_ip: "dict_get d ''ip'' = Some ident"
    and ne: "ident \<noteq> []"
  shows "add_device_to_track env2 ident (fst (snd (add_device_to_track env ident t w))) w2 =
           (Inr False, fst (snd (add_device_to_track env ident t w)),
            print ''Device is already being tracked'' w2)"
proof (cases "Some ident \<in> set (map identity_key (tracked_devices t))")
  case True
  then have "fst (snd (add_device_to_track env ident t w)) = t"
    using ne by (simp add: add_rejects_tracked_key)
  with True ne show ?thesis by (simp add: add_rejects_tracked_key)
next
  case False
  have key: "identity_key d = Some ident"
    using by_ip ne by (simp add: identity_key_def)
  have "fst (snd (add_device_to_track env ident t w))
          = t\<lparr>tracked_devices := tracked_devices t @ [d]\<rparr>"
    using add_after_scan [OF ne False scan] found by simp
  moreover have "Some ident \<in> set (map identity_key
                    (tracked_devices (t\<lparr>tracked_devices := tracked_devices t @ [d]\<rparr>)))"
    using key by simp
  ultimately show ?thesis using ne by (simp add: add_rejects_tracked_key)
qed

text \<open>
  Claim C1. Adding the same identifier twice is to return false the second time and leave
  the registry as it was. The code does so for an ip, but not for a mac: the check for an
  already tracked device compares the identifier with \<open>d.get('ip') or d.get('mac')\<close>,
  which is the ip of every scanned device, so the MAC address of a tracked device is not
  recognised. In the scenario, adding AA:BB:CC:DD:EE:FF twice returns true both times and
  the registry holds the same device twice, under one identity key.
\<close>

theorem add_same_mac_twice_accepted:
  "(case add_device_to_track scenario_env ''AA:BB:CC:DD:EE:FF'' fresh_tracker initial_world of
      (r1, t1, w1) \<Rightarrow>
        (case add_device_to_track scenario_env ''AA:BB:CC:DD:EE:FF'' t1 w1 of
           (r2, t2, w2) \<Rightarrow>
             r1 = Inr True \<and> r2 = Inr True
             \<and> tracked_devices t1 = [scenario_device]
             \<and> tracked_devices t2 = [scenario_device, scenario_device]
             \<and> map identity_key (tracked_devices t2) = [Some ''192.168.1.50'', Some ''192.168.1.50'']))"
  by code_simp

section \<open>The summary\<close>

lemma summary_loop_console:
  "console (summary_loop env logs w) = console w @ concat (map (record_block env) logs)"
  by (induction logs arbitrary: w) (simp_all add: record_block_def)

lemma record_blocks_length:
  "length (concat (map (record_block env) logs)) = 5 * length logs"
  by (induction logs) (simp_all add: record_block_def)

lemma record_blocks_nth:
  "k < length logs \<Longrightarrow>
     take 5 (drop (5 * k) (concat (map (record_block env) logs))) = record_block env (logs ! k)"
proof (induction logs arbitrary: k)
  case Nil
  then show ?case by simp
next
  case (Cons a logs)
  have len: "length (record_block env a) = 5" by (simp add: record_block_def)
  show ?case
  proof (cases k)
    case 0
    then show ?thesis using len by simp
  next
    case (Suc j)
    with Cons.prems have "j < length logs" by simp
    then have "take 5 (drop (5 * j) (concat (map (record_block env) logs)))
                 = record_block env (logs ! j)"
      by (rule Cons.IH)
    moreover have "5 * k = 5 + 5 * j" using Suc by simp
    ultimately show ?thesis using len Suc by simp
  qed
qed

text \<open>
  Claim C7. On an empty \<open>device_logs\<close> the summary prints the "no data" message and
  nothing else. On a non-empty one it prints the header and then exactly one block of five
  lines per observation, in the order of the list: the k-th block is the
  \<open>record_block\<close> of the k-th observation, which shows the time as \<open>time.ctime\<close>
  formats it, the ip, the mac and Online or Offline according to \<open>online\<close>.
\<close>

theorem display_tracking_summary_output:
  "(device_logs t = [] \<longrightarrow>
      console (display_tracking_summary env t w) =
        console w @ [''No device tracking data available.''])
   \<and> (device_logs t \<noteq> [] \<longrightarrow>
      console (display_tracking_summary env t w) =
        console w @ (nl @ ''--- Device Tracking Summary ---'')
          # concat (map (record_block env) (device_logs t))
      \<and> length (console (display_tracking_summary env t w)) =
          length (console w) + 1 + 5 * length (device_logs t)
      \<and> (\<forall>k < length (device_logs t).
            take 5 (drop (length (console w) + 1 + 5 * k)
                      (console (display_tracking_summary env t w)))
              = record_block env (device_logs t ! k)))"
  using record_blocks_nth [of _ "device_logs t" env]
  by (simp add: display_tracking_summary_def summary_loop_console record_blocks_length)

theorem display_tracking_summary_output_witness:
  "console (display_tracking_summary scenario_env fresh_tracker initial_world)
     = [''No device tracking data available.'']
   \<and> console (display_tracking_summary scenario_env
               (fresh_tracker\<lparr>device_logs := two_observations\<rparr>) initial_world)
     = [nl @ ''--- Device Tracking Summary ---'',
        ''Time: Thu Jan  1 00:00:00 1970'', ''IP: 192.168.1.50'', ''MAC: AA:BB:CC:DD:EE:FF'',
        ''Status: Online'', ''---'',
        ''Time: Thu Jan  1 00:00:00 1970'', ''IP: 192.168.1.50'', ''MAC: AA:BB:CC:DD:EE:FF'',
        ''Status: Offline'', ''---'']"
  using display_tracking_summary_output [of fresh_tracker scenario_env initial_world]
    display_tracking_summary_output
      [of "fresh_tracker\<lparr>device_logs := two_observations\<rparr>" scenario_env initial_world]
  by (simp add: fresh_tracker_def initial_world_def two_observations_def record_block_def
        scenario_env_def)

section \<open>One iteration of the tracking loop\<close>

text \<open>The body of the \<open>try\<close>, for each way it can end.\<close>

lemma try_no_ip:
  assumes "map_of device ''ip'' = None"
  shows "track_try env device t w = (Some (KeyError ''ip''), t, w)"
  using assms by (simp add: track_try_def dict_item_def)

lemma try_ping_raises:
  assumes "map_of device ''ip'' = Some a" "run_ping env (ticks w) (ping_command env a) = Inl e"
  shows "track_try env device t w = (Some e, t, w\<lparr>clock := clock w + ping_time env (ticks w)\<rparr>)"
  using assms by (simp add: track_try_def dict_item_def ping_command_def Let_def)

lemma try_open_raises:
  assumes "map_of device ''ip'' = Some a" "run_ping env (ticks w) (ping_command env a) = Inr rc"
    "write_error env (ticks w) = Some (OpenFails e)"
  shows "track_try env device t w =
           (Some e, t\<lparr>device_logs := device_logs t @ [device_status env device a rc w]\<rparr>,
            w\<lparr>clock := clock w + ping_time env (ticks w)\<rparr>)"
  using assms
  by (simp add: track_try_def dict_item_def ping_command_def device_status_def Let_def)

lemma try_write_raises:
  assumes "map_of device ''ip'' = Some a" "run_ping env (ticks w) (ping_command env a) = Inr rc"
    "write_error env (ticks w) = Some (WriteFails e n)"
  shows "track_try env device t w =
           (Some e, t\<lparr>device_logs := device_logs t @ [device_status env device a rc w]\<rparr>,
            w\<lparr>clock := clock w + ping_time env (ticks w),
              files := (files w)(log_file t \<mapsto>
                 file_content w (log_file t)
                 @ take n (json_dumps env (device_status env device a rc w) @ nl))\<rparr>)"
  using assms
  by (simp add: track_try_def dict_item_def ping_command_def device_status_def Let_def
        file_content_def)

lemma try_ok:
  assumes "map_of device ''ip'' = Some a" "run_ping env (ticks w) (ping_command env a) = Inr rc"
    "write_error env (ticks w) = None"
  shows "track_try env device t w =
           (None, t\<lparr>device_logs := device_logs t @ [device_status env device a rc w]\<rparr>,
            w\<lparr>clock := clock w + ping_time env (ticks w),
              files := (files w)(log_file t \<mapsto>
                 file_content w (log_file t) @ json_dumps env (device_status env device a rc w) @ nl),
              console := console w @
                 [''Device '' @ a @ '' status: '' @ (if rc = 0 then ''Online'' else ''Offline'')]\<rparr>)"
  using assms
  by (simp add: track_try_def dict_item_def ping_command_def device_status_def Let_def
        file_content_def print_def)

lemma try_logs:
  assumes "map_of device ''ip'' = Some a"
  shows "log_file (fst (snd (track_try env device t w))) = log_file t
         \<and> tracked_devices (fst (snd (track_try env device t w))) = tracked_devices t
         \<and> device_logs (fst (snd (track_try env device t w)))
             = (case run_ping env (ticks w) (ping_command env a) of
                  Inl e \<Rightarrow> device_logs t
                | Inr rc \<Rightarrow> device_logs t @ [device_status env device a rc w])"
proof (cases "run_ping env (ticks w) (ping_command env a)")
  case (Inl e)
  then show ?thesis by (simp add: try_ping_raises [OF assms Inl])
next
  case (Inr rc)
  show ?thesis
  proof (cases "write_error env (ticks w)")
    case None
    then show ?thesis using Inr by (simp add: try_ok [OF assms Inr None])
  next
    case (Some wf)
    then show ?thesis using Inr
      by (cases wf)
         (simp_all add: try_open_raises [OF assms Inr] try_write_raises [OF assms Inr])
  qed
qed

lemma try_clock:
  assumes "map_of device ''ip'' = Some a"
  shows "clock (snd (snd (track_try env device t w))) = clock w + ping_time env (ticks w)
         \<and> ticks (snd (snd (track_try env device t w))) = ticks w"
proof (cases "run_ping env (ticks w) (ping_command env a)")
  case (Inl e)
  then show ?thesis by (simp add: try_ping_raises [OF assms Inl])
next
  case (Inr rc)
  show ?thesis
  proof (cases "write_error env (ticks w)")
    case None
    then show ?thesis by (simp add: try_ok [OF assms Inr None])
  next
    case (Some wf)
    then show ?thesis
      by (cases wf)
         (simp_all add: try_open_raises [OF assms Inr] try_write_raises [OF assms Inr])
  qed
qed

text \<open>
  The whole iteration. The object and the files after it are those the \<open>try\<close>
  left; the handler and the sleep touch neither.
\<close>

lemma tick_no_ip:
  assumes "map_of device ''ip'' = None"
  shows "track_tick env device interval t w = (Some (KeyError ''ip''), t, w)"
  using assms by (simp add: track_tick_def try_no_ip dict_item_def)

lemma tick_keeps_try_state:
  "fst (snd (track_tick env device interval t w)) = fst (snd (track_try env device t w))
   \<and> files (snd (snd (track_tick env device interval t w)))
       = files (snd (snd (track_try env device t w)))"
proof -
  obtain r t1 w1 where tr: "track_try env device t w = (r, t1, w1)"
    by (cases "track_try env device t w")
  show ?thesis
    by (cases r; cases "dict_item device ''ip''"; cases "interval < 0";
        cases "sleep_error env interval")
       (simp_all add: track_tick_def tr sleep_def)
qed

lemma tick_handled:
  assumes ip: "map_of device ''ip'' = Some a" and iv: "0 \<le> interval"
    and acc: "sleep_error env interval = None"
    and tr: "track_try env device t w = (r, t1, w1)"
  shows "track_tick env device interval t w =
           (None, t1,
            (case r of None \<Rightarrow> w1
             | Some e \<Rightarrow> print (''Error tracking device '' @ a @ '': '' @ str_exn e) w1)
              \<lparr>clock := clock w1 + interval + oversleep env (ticks w1),
                ticks := Suc (ticks w1)\<rparr>)"
  using assms by (cases r) (simp_all add: track_tick_def dict_item_def sleep_def print_def)

lemma tick_ping_raises:
  assumes "map_of device ''ip'' = Some a" "run_ping env (ticks w) (ping_command env a) = Inl e"
    "0 \<le> interval" "sleep_error env interval = None"
  shows "track_tick env device interval t w =
           (None, t,
            w\<lparr>clock := clock w + ping_time env (ticks w) + interval + oversleep env (ticks w),
              ticks := Suc (ticks w),
              console := console w @ [''Error tracking device '' @ a @ '': '' @ str_exn e]\<rparr>)"
  by (simp add: tick_handled [OF assms(1,3,4) try_ping_raises [OF assms(1,2)]] print_def)

lemma tick_open_raises:
  assumes "map_of device ''ip'' = Some a" "run_ping env (ticks w) (ping_command env a) = Inr rc"
    "write_error env (ticks w) = Some (OpenFails e)" "0 \<le> interval"
    "sleep_error env interval = None"
  shows "track_tick env device interval t w =
           (None, t\<lparr>device_logs := device_logs t @ [device_status env device a rc w]\<rparr>,
            w\<lparr>clock := clock w + ping_time env (ticks w) + interval + oversleep env (ticks w),
              ticks := Suc (ticks w),
              console := console w @ [''Error tracking device '' @ a @ '': '' @ str_exn e]\<rparr>)"
  by (simp add: tick_handled [OF assms(1,4,5) try_open_raises [OF assms(1,2,3)]] print_def)

lemma tick_write_raises:
  assumes "map_of device ''ip'' = Some a" "run_ping env (ticks w) (ping_command env a) = Inr rc"
    "write_error env (ticks w) = Some (WriteFails e n)" "0 \<le> interval"
    "sleep_error env interval = None"
  shows "track_tick env device interval t w =
           (None, t\<lparr>device_logs := device_logs t @ [device_status env device a rc w]\<rparr>,
            w\<lparr>clock := clock w + ping_time env (ticks w) + interval + oversleep env (ticks w),
              ticks := Suc (ticks w),
              files := (files w)(log_file t \<mapsto>
                 file_content w (log_file t)
                 @ take n (json_dumps env (device_status env device a rc w) @ nl)),
              console := console w @ [''Error tracking device '' @ a @ '': '' @ str_exn e]\<rparr>)"
  by (simp add: tick_handled [OF assms(1,4,5) try_write_raises [OF assms(1,2,3)]] print_def)

lemma tick_ok:
  assumes "map_of device ''ip'' = Some a" "run_ping env (ticks w) (ping_command env a) = Inr rc"
    "write_error env (ticks w) = None" "0 \<le> interval" "sleep_error env interval = None"
  shows "track_tick env device interval t w =
           (None, t\<lparr>device_logs := device_logs t @ [device_status env device a rc w]\<rparr>,
            w\<lparr>clock := clock w + ping_time env (ticks w) + interval + oversleep env (ticks w),
              ticks := Suc (ticks w),
              files := (files w)(log_file t \<mapsto>
                 file_content w (log_file t) @ json_dumps env (device_status env device a rc w) @ nl),
              console := console w @
                 [''Device '' @ a @ '' status: '' @ (if rc = 0 then ''Online'' else ''Offline'')]\<rparr>)"
  by (simp add: tick_handled [OF assms(1,4,5) try_ok [OF assms(1,2,3)]])

text \<open>The sleep is outside the \<open>try\<close>: when it raises, the exception leaves the loop.\<close>

lemma tick_sleep_raises:
  assumes ip: "map_of device ''ip'' = Some a" and iv: "0 \<le> interval"
    and rej: "sleep_error env interval = Some e"
  shows "fst (track_tick env device interval t w) = Some e"
proof -
  obtain r t1 w1 where tr: "track_try env device t w = (r, t1, w1)"
    by (cases "track_try env device t w")
  show ?thesis using assms
    by (cases r) (simp_all add: track_tick_def tr dict_item_def sleep_def)
qed

lemma tick_progress:
  assumes tick: "track_tick env device interval t w = (None, t', w')"
  shows "clock w' = clock w + ping_time env (ticks w) + interval + oversleep env (ticks w)
         \<and> ticks w' = Suc (ticks w)"
proof (cases "map_of device ''ip''")
  case None
  with tick show ?thesis by (simp add: tick_no_ip)
next
  case (Some a)
  obtain r t1 w1 where tr: "track_try env device t w = (r, t1, w1)"
    by (cases "track_try env device t w")
  from try_clock [OF Some, of env t w] tr
  have c1: "clock w1 = clock w + ping_time env (ticks w)" "ticks w1 = ticks w" by simp_all
  show ?thesis
  proof (cases "interval < 0")
    case True
    with tick tr Some show ?thesis
      by (cases r) (simp_all add: track_tick_def dict_item_def sleep_def)
  next
    case False
    show ?thesis
    proof (cases "sleep_error env interval")
      case (Some e)
      with tick tr \<open>map_of device ''ip'' = Some a\<close> False show ?thesis
        by (cases r) (simp_all add: track_tick_def dict_item_def sleep_def)
    next
      case None
      from False have iv: "0 \<le> interval" by simp
      from tick_handled [OF \<open>map_of device ''ip'' = Some a\<close> iv None tr] tick c1
      show ?thesis by (cases r) (auto simp: print_def)
    qed
  qed
qed

lemma tick_summary:
  assumes ip: "map_of device ''ip'' = Some a" and iv: "0 \<le> interval"
    and acc: "sleep_error env interval = None"
  shows "\<exists>t' w'. track_tick env device interval t w = (None, t', w')
           \<and> clock w' = clock w + ping_time env (ticks w) + interval + oversleep env (ticks w)
           \<and> ticks w' = Suc (ticks w)
           \<and> log_file t' = log_file t \<and> tracked_devices t' = tracked_devices t
           \<and> (case run_ping env (ticks w) (ping_command env a) of
                 Inl e \<Rightarrow> device_logs t' = device_logs t
               | Inr rc \<Rightarrow> device_logs t' = device_logs t @ [device_status env device a rc w])"
proof -
  obtain r t1 w1 where tr: "track_try env device t w = (r, t1, w1)"
    by (cases "track_try env device t w")
  from tick_handled [OF ip iv acc tr] obtain w' where
    tick: "track_tick env device interval t w = (None, t1, w')" by blast
  from tick_progress [OF tick] try_logs [OF ip, of env t w] tr tick
  show ?thesis by (auto split: sum.splits)
qed

lemma tick_logs:
  assumes ip: "map_of device ''ip'' = Some a"
  shows "log_file (fst (snd (track_tick env device interval t w))) = log_file t
         \<and> tracked_devices (fst (snd (track_tick env device interval t w))) = tracked_devices t
         \<and> device_logs (fst (snd (track_tick env device interval t w)))
             = (case run_ping env (ticks w) (ping_command env a) of
                  Inl e \<Rightarrow> device_logs t
                | Inr rc \<Rightarrow> device_logs t @ [device_status env device a rc w])"
  using try_logs [OF ip, of env t w] by (simp add: tick_keeps_try_state)

section \<open>The tracking loop\<close>

lemma loop_exit:
  assumes "\<not> clock w - start < duration"
  shows "track_loop env device interval duration start t w = Some (None, t, w)"
  using assms by (subst track_loop.simps) simp

lemma loop_step:
  assumes "clock w - start < duration" "track_tick env device interval t w = (None, t', w')"
  shows "track_loop env device interval duration start t w
           = track_loop env device interval duration start t' w'"
  using assms by (subst track_loop.simps) simp

lemma loop_raise:
  assumes "clock w - start < duration" "track_tick env device interval t w = (Some e, t', w')"
  shows "track_loop env device interval duration start t w = Some (Some e, t', w')"
  using assms by (subst track_loop.simps) simp

text \<open>
  With a positive interval and a clock that does not run backwards, every iteration that
  does not raise uses up at least \<open>interval\<close> seconds of the remaining time, so
  \<open>n\<close> iterations suffice when the remaining time is at most \<open>n * interval\<close>.
\<close>

lemma loop_terminates_bounded:
  assumes iv: "0 < interval" and mono: "\<forall>k. 0 \<le> ping_time env k + oversleep env k"
  shows "duration - (clock w - start) \<le> real n * interval
           \<Longrightarrow> \<exists>r. track_loop env device interval duration start t w = Some r"
proof (induction n arbitrary: t w)
  case 0
  then have "\<not> clock w - start < duration" by simp
  then show ?case by (simp add: loop_exit)
next
  case (Suc n)
  show ?case
  proof (cases "clock w - start < duration")
    case False
    then show ?thesis by (simp add: loop_exit)
  next
    case True
    obtain r t' w' where tick: "track_tick env device interval t w = (r, t', w')"
      by (cases "track_tick env device interval t w")
    show ?thesis
    proof (cases r)
      case (Some e)
      with loop_raise [OF True] tick show ?thesis by blast
    next
      case None
      with tick have tick': "track_tick env device interval t w = (None, t', w')" by simp
      from tick_progress [OF tick']
      have clk: "clock w' = clock w + ping_time env (ticks w) + interval + oversleep env (ticks w)"
        by simp
      from mono have "0 \<le> ping_time env (ticks w) + oversleep env (ticks w)" by blast
      with clk have "clock w + interval \<le> clock w'" by simp
      with Suc.prems have "duration - (clock w' - start) \<le> real n * interval"
        by (simp add: algebra_simps)
      then obtain res where "track_loop env device interval duration start t' w' = Some res"
        using Suc.IH by blast
      then have "track_loop env device interval duration start t w = Some res"
        using loop_step [OF True tick'] by simp
      then show ?thesis by blast
    qed
  qed
qed

lemma loop_terminates:
  assumes iv: "0 < interval" and mono: "\<forall>k. 0 \<le> ping_time env k + oversleep env k"
  shows "\<exists>r. track_loop env device interval duration start t w = Some r"
proof -
  obtain n :: nat where "(duration - (clock w - start)) / interval \<le> real n"
    using real_arch_simple by blast
  with iv have "duration - (clock w - start) \<le> real n * interval"
    by (simp add: pos_divide_le_eq)
  then show ?thesis by (rule loop_terminates_bounded [OF iv mono])
qed

text \<open>
  For a device with an address and a sleep length that \<open>time.sleep\<close> accepts, no
  exception leaves the loop, and it returns when the duration has elapsed.
\<close>

lemma loop_returns_normally:
  assumes ip: "map_of device ''ip'' = Some a" and iv: "0 \<le> interval"
    and acc: "sleep_error env interval = None"
    and ret: "track_loop env device interval duration start t w = Some res"
  shows "\<exists>t' w'. res = (None, t', w') \<and> duration \<le> clock w' - start"
proof -
  let ?P = "\<lambda>env' device' interval' duration' start' (t :: tracker) (w :: world) res.
     env' = env \<and> device' = device \<and> interval' = interval \<and> duration' = duration
       \<and> start' = start \<longrightarrow>
     (\<exists>t' w'. res = (None, t', w') \<and> duration \<le> clock w' - start)"
  have "?P env device interval duration start t w res"
  proof (rule track_loop.raw_induct [where P = ?P, OF _ ret])
    fix f env' device' interval' duration' start' t w res
    assume IH: "\<And>env' device' interval' duration' start' t w res.
        f env' device' interval' duration' start' t w = Some res \<Longrightarrow>
        ?P env' device' interval' duration' start' t w res"
      and eq: "(if clock w - start' < duration' then
                 (case track_tick env' device' interval' t w of
                    (None, t', w') \<Rightarrow> f env' device' interval' duration' start' t' w'
                  | (Some e, t', w') \<Rightarrow> Some (Some e, t', w'))
               else Some (None, t, w)) = Some res"
    show "?P env' device' interval' duration' start' t w res"
    proof (intro impI)
      assume same: "env' = env \<and> device' = device \<and> interval' = interval
                      \<and> duration' = duration \<and> start' = start"
      show "\<exists>t' w'. res = (None, t', w') \<and> duration \<le> clock w' - start"
      proof (cases "clock w - start < duration")
        case False
        with eq same have "res = (None, t, w)" by simp
        with False show ?thesis by simp
      next
        case True
        from tick_summary [OF ip iv acc, of t w] obtain t1 w1
          where tick: "track_tick env device interval t w = (None, t1, w1)"
          by blast
        from eq same True tick have "f env device interval duration start t1 w1 = Some res"
          by simp
        from IH [OF this] show ?thesis by blast
      qed
    qed
  qed
  then show ?thesis by simp
qed

text \<open>
  However the loop ends, \<open>device_logs\<close> has only grown, by observations of this
  device.
\<close>

lemma loop_logs_grow:
  assumes ip: "map_of device ''ip'' = Some a"
    and ret: "track_loop env device interval duration start t w = Some res"
  shows "log_file (fst (snd res)) = log_file t
         \<and> tracked_devices (fst (snd res)) = tracked_devices t
         \<and> prefix (device_logs t) (device_logs (fst (snd res)))
         \<and> (\<forall>obs \<in> set (drop (length (device_logs t)) (device_logs (fst (snd res)))).
               ip obs = a
               \<and> mac obs = (case dict_get device ''mac'' of None \<Rightarrow> ''Unknown'' | Some m \<Rightarrow> m))"
proof -
  let ?Q = "\<lambda>t res. log_file (fst (snd res)) = log_file t
         \<and> tracked_devices (fst (snd res)) = tracked_devices t
         \<and> prefix (device_logs t) (device_logs (fst (snd res)))
         \<and> (\<forall>obs \<in> set (drop (length (device_logs t)) (device_logs (fst (snd res)))).
               ip obs = a
               \<and> mac obs = (case dict_get device ''mac'' of None \<Rightarrow> ''Unknown'' | Some m \<Rightarrow> m))"
  let ?P = "\<lambda>env' device' (interval' :: real) (duration' :: real) (start' :: real)
              (t :: tracker) (w :: world) res.
     env' = env \<and> device' = device \<longrightarrow> ?Q t res"
  have step: "?Q t res" if "?Q t1 res"
    and t1: "t1 = fst (snd (track_tick env device interval' t w))" for t t1 w res interval'
  proof -
    from tick_logs [OF ip, of env interval' t w] t1
    have lf: "log_file t1 = log_file t" "tracked_devices t1 = tracked_devices t"
      and logs: "device_logs t1
             = (case run_ping env (ticks w) (ping_command env a) of
                  Inl e \<Rightarrow> device_logs t
                | Inr rc \<Rightarrow> device_logs t @ [device_status env device a rc w])"
      by simp_all
    from that(1) obtain zs where zs: "device_logs (fst (snd res)) = device_logs t1 @ zs"
      by (auto simp: prefix_def)
    show ?thesis
    proof (cases "run_ping env (ticks w) (ping_command env a)")
      case (Inl e)
      with logs that(1) lf show ?thesis by simp
    next
      case (Inr rc)
      with logs have "device_logs t1 = device_logs t @ [device_status env device a rc w]"
        by simp
      with that(1) zs lf show ?thesis by (auto simp: device_status_def)
    qed
  qed
  have "?P env device interval duration start t w res"
  proof (rule track_loop.raw_induct [where P = ?P, OF _ ret])
    fix f env' device' interval' duration' start' t w res
    assume IH: "\<And>env' device' interval' duration' start' t w res.
        f env' device' interval' duration' start' t w = Some res \<Longrightarrow>
        ?P env' device' interval' duration' start' t w res"
      and eq: "(if clock w - start' < duration' then
                 (case track_tick env' device' interval' t w of
                    (None, t', w') \<Rightarrow> f env' device' interval' duration' start' t' w'
                  | (Some e, t', w') \<Rightarrow> Some (Some e, t', w'))
               else Some (None, t, w)) = Some res"
    show "?P env' device' interval' duration' start' t w res"
    proof (intro impI)
      assume same: "env' = env \<and> device' = device"
      show "?Q t res"
      proof (cases "clock w - start' < duration'")
        case False
        with eq have "res = (None, t, w)" by simp
        then show ?thesis by simp
      next
        case True
        obtain r t1 w1 where tick: "track_tick env device interval' t w = (r, t1, w1)"
          by (cases "track_tick env device interval' t w")
        then have t1: "t1 = fst (snd (track_tick env device interval' t w))" by simp
        show ?thesis
        proof (cases r)
          case None
          with eq same True tick have "f env device interval' duration' start' t1 w1 = Some res"
            by simp
          from IH [OF this] have "?Q t1 res" by simp
          then show ?thesis using t1 by (rule step)
        next
          case (Some e)
          with eq same True tick have "res = (Some e, t1, w1)" by auto
          then have "?Q t1 res" by simp
          then show ?thesis using t1 by (rule step)
        qed
      qed
    qed
  qed
  then show ?thesis by simp
qed

lemma scenario_device_ip: "dict_get scenario_device ''ip'' = Some ''192.168.1.50''"
  by (simp add: dict_get_def scenario_device_def)

lemma scenario_device_mac: "dict_get scenario_device ''mac'' = Some ''AA:BB:CC:DD:EE:FF''"
  by (simp add: dict_get_def scenario_device_def)

lemma scenario_sleep_60: "sleep_error scenario_env 60 = None"
  by (simp add: scenario_env_def)

text \<open>
  Claim C9. For every device, every interval > 0 and every duration, the tracking loop
  terminates and returns control to the caller, provided the clock does not run backwards
  (no check and no sleep takes negative time): each iteration then advances the elapsed
  time by at least the interval. For a device that has an address and an interval that
  \<open>time.sleep\<close> accepts, the return is a normal one, reached when the elapsed time
  is at least the duration; for an interval that \<open>time.sleep\<close> refuses, control
  returns with the exception of the first sleep.
\<close>

theorem track_device_terminates:
  assumes "0 < interval" "\<forall>k. 0 \<le> ping_time env k" "\<forall>k. 0 \<le> oversleep env k"
  shows "\<exists>r t' w'. track_device env device interval duration t w = Some (r, t', w')
           \<and> (dict_get device ''ip'' \<noteq> None \<and> sleep_error env interval = None \<longrightarrow>
                 r = None \<and> duration \<le> clock w' - clock w)
           \<and> (dict_get device ''ip'' \<noteq> None \<and> sleep_error env interval \<noteq> None
                 \<and> 0 < duration \<longrightarrow> r = sleep_error env interval)"
proof -
  let ?w = "print (''Starting tracking for device: '' @ repr_device env device) w"
  from assms(2,3) have mono: "\<forall>k. 0 \<le> ping_time env k + oversleep env k"
    by (simp add: add_nonneg_nonneg)
  from assms(1) have iv0: "0 \<le> interval" by simp
  from loop_terminates [OF assms(1) mono] obtain res
    where res: "track_loop env device interval duration (clock w) t ?w = Some res"
    by blast
  obtain r t' w' where shape: "res = (r, t', w')" by (cases res)
  have normal: "r = None \<and> duration \<le> clock w' - clock w"
    if "dict_get device ''ip'' \<noteq> None" "sleep_error env interval = None"
  proof -
    from that(1) obtain a where "map_of device ''ip'' = Some a" by (auto simp: dict_get_def)
    from loop_returns_normally [OF this iv0 that(2) res] shape show ?thesis by auto
  qed
  have raised: "r = sleep_error env interval"
    if "dict_get device ''ip'' \<noteq> None" "sleep_error env interval \<noteq> None" "0 < duration"
  proof -
    from that(1) obtain a where ip: "map_of device ''ip'' = Some a" by (auto simp: dict_get_def)
    from that(2) obtain e where e: "sleep_error env interval = Some e" by auto
    obtain r1 t1 w1 where tick: "track_tick env device interval t ?w = (r1, t1, w1)"
      by (cases "track_tick env device interval t ?w")
    with tick_sleep_raises [OF ip iv0 e, of t ?w] have "r1 = Some e" by simp
    with tick have tick': "track_tick env device interval t ?w = (Some e, t1, w1)" by simp
    have guard: "clock ?w - clock w < duration" using that(3) by (simp add: print_def)
    from loop_raise [OF guard tick'] res shape e show ?thesis by simp
  qed
  from res shape normal raised show ?thesis by (simp add: track_device_def Let_def)
qed

theorem track_device_terminates_witness:
  "(\<exists>t' w'. track_device scenario_env scenario_device 60 3600 fresh_tracker initial_world
              = Some (None, t', w')
         \<and> 3600 \<le> clock w' - clock initial_world)
   \<and> (\<exists>t' w'. track_device scenario_env scenario_device 10000000000 100 fresh_tracker
                 initial_world
              = Some (Some (OverflowError ''timestamp too large to convert to C PyTime_t''),
                      t', w'))"
proof -
  have h: "\<forall>k. 0 \<le> ping_time scenario_env k" "\<forall>k. 0 \<le> oversleep scenario_env k"
    by (simp_all add: scenario_env_def)
  have big: "sleep_error scenario_env 10000000000
               = Some (OverflowError ''timestamp too large to convert to C PyTime_t'')"
    by (simp add: scenario_env_def)
  from track_device_terminates [OF _ h, of 60 scenario_device 3600 fresh_tracker initial_world]
    scenario_device_ip scenario_sleep_60
  have a: "\<exists>t' w'. track_device scenario_env scenario_device 60 3600 fresh_tracker initial_world
              = Some (None, t', w')
         \<and> 3600 \<le> clock w' - clock initial_world"
    by auto
  from track_device_terminates [OF _ h, of 10000000000 scenario_device 100 fresh_tracker
      initial_world] scenario_device_ip big
  have b: "\<exists>t' w'. track_device scenario_env scenario_device 10000000000 100 fresh_tracker
                 initial_world
              = Some (Some (OverflowError ''timestamp too large to convert to C PyTime_t''),
                      t', w')"
    by auto
  from a b show ?thesis by blast
qed

text \<open>
  Claim C5. For a device with an address and an interval that \<open>time.sleep\<close>
  accepts: when the reachability check of an iteration raises, the exception is caught (no
  exception leaves the iteration), one line reporting it is printed, the object is
  unchanged, and the loop goes on with the next iteration after the sleep. Whenever the
  loop returns, it returns normally and the elapsed time has reached the duration.
\<close>

theorem ping_failure_does_not_stop_loop:
  assumes ip: "dict_get device ''ip'' = Some a" and iv: "0 \<le> interval"
    and acc: "sleep_error env interval = None"
  shows "(run_ping env (ticks w) (ping_command env a) = Inl e \<longrightarrow>
            track_tick env device interval t w =
              (None, t,
               w\<lparr>clock := clock w + ping_time env (ticks w) + interval + oversleep env (ticks w),
                 ticks := Suc (ticks w),
                 console := console w @ [''Error tracking device '' @ a @ '': '' @ str_exn e]\<rparr>)
            \<and> (clock w - start < duration \<longrightarrow>
                 track_loop env device interval duration start t w =
                 track_loop env device interval duration start t
                   (w\<lparr>clock := clock w + ping_time env (ticks w) + interval
                                  + oversleep env (ticks w),
                      ticks := Suc (ticks w),
                      console := console w
                         @ [''Error tracking device '' @ a @ '': '' @ str_exn e]\<rparr>)))
         \<and> (\<forall>res. track_loop env device interval duration start t w = Some res \<longrightarrow>
               (\<exists>t' w'. res = (None, t', w') \<and> duration \<le> clock w' - start))"
proof -
  from ip have ip': "map_of device ''ip'' = Some a" by (simp add: dict_get_def)
  have tick: "track_tick env device interval t w =
              (None, t,
               w\<lparr>clock := clock w + ping_time env (ticks w) + interval + oversleep env (ticks w),
                 ticks := Suc (ticks w),
                 console := console w @ [''Error tracking device '' @ a @ '': '' @ str_exn e]\<rparr>)"
    if "run_ping env (ticks w) (ping_command env a) = Inl e"
    using tick_ping_raises [OF ip' that iv acc] .
  have exit: "\<exists>t' w'. res = (None, t', w') \<and> duration \<le> clock w' - start"
    if "track_loop env device interval duration start t w = Some res" for res
    using loop_returns_normally [OF ip' iv acc that] by blast
  show ?thesis using tick loop_step [OF _ tick] exit by blast
qed

theorem ping_failure_does_not_stop_loop_witness:
  "track_tick failing_ping_env scenario_device 60 fresh_tracker initial_world =
     (None, fresh_tracker,
      initial_world\<lparr>clock := 60, ticks := 1,
        console := [''Error tracking device 192.168.1.50: No such file or directory'']\<rparr>)
   \<and> (\<exists>t' w'. track_loop failing_ping_env scenario_device 60 100 0 fresh_tracker initial_world
              = Some (None, t', w') \<and> 100 \<le> clock w')"
proof -
  have ping: "run_ping failing_ping_env (ticks initial_world)
                (ping_command failing_ping_env ''192.168.1.50'')
              = Inl (FileNotFoundError ''No such file or directory'')"
    by (simp add: failing_ping_env_def scenario_env_def)
  have times: "ping_time failing_ping_env k = 0" "oversleep failing_ping_env k = 0" for k
    by (simp_all add: failing_ping_env_def scenario_env_def)
  have acc: "sleep_error failing_ping_env 60 = None"
    by (simp add: failing_ping_env_def scenario_env_def)
  note inst = ping_failure_does_not_stop_loop [OF scenario_device_ip _ acc,
      of initial_world "FileNotFoundError ''No such file or directory''" fresh_tracker 0 100]
  from inst ping have tick:
    "track_tick failing_ping_env scenario_device 60 fresh_tracker initial_world =
     (None, fresh_tracker,
      initial_world\<lparr>clock := 60, ticks := 1,
        console := [''Error tracking device 192.168.1.50: No such file or directory'']\<rparr>)"
    by (simp add: times initial_world_def)
  have "\<exists>res. track_loop failing_ping_env scenario_device 60 100 0 fresh_tracker initial_world
          = Some res"
    by (rule loop_terminates) (simp_all add: times)
  then obtain res where res:
    "track_loop failing_ping_env scenario_device 60 100 0 fresh_tracker initial_world = Some res"
    by blast
  with inst obtain t' w' where shape: "res = (None, t', w')" and dur: "100 \<le> clock w'"
    by auto
  show ?thesis using tick res shape dur by blast
qed

section \<open>Observations\<close>

text \<open>
  Claim C8. For a device with an address: the observation that an iteration appends when
  its check returns exit code \<open>rc\<close> has \<open>online = (rc = 0)\<close>, the ip of the
  device, the mac of the device or "Unknown" when the dict has no mac, and as timestamp
  the clock reading taken in this iteration right after the check. Observations are never
  changed afterwards: whenever the loop returns, the old \<open>device_logs\<close> is a prefix
  of the new one, and every appended observation carries the ip and mac of the device.
\<close>

theorem observation_fields:
  assumes ip: "dict_get device ''ip'' = Some a" and iv: "0 \<le> interval"
  shows "(run_ping env (ticks w) (ping_command env a) = Inr rc \<longrightarrow>
            device_logs (fst (snd (track_tick env device interval t w)))
              = device_logs t @
                  [\<lparr>timestamp = clock w + ping_time env (ticks w),
                    ip = a,
                    mac = (case dict_get device ''mac'' of None \<Rightarrow> ''Unknown'' | Some m \<Rightarrow> m),
                    online = (rc = 0)\<rparr>])
         \<and> (\<forall>res. track_loop env device interval duration start t w = Some res \<longrightarrow>
               prefix (device_logs t) (device_logs (fst (snd res)))
               \<and> (\<forall>obs \<in> set (drop (length (device_logs t)) (device_logs (fst (snd res)))).
                     ip obs = a
                     \<and> mac obs = (case dict_get device ''mac'' of
                                    None \<Rightarrow> ''Unknown'' | Some m \<Rightarrow> m)))"
proof -
  from ip have ip': "map_of device ''ip'' = Some a" by (simp add: dict_get_def)
  have one: "device_logs (fst (snd (track_tick env device interval t w)))
              = device_logs t @
                  [\<lparr>timestamp = clock w + ping_time env (ticks w),
                    ip = a,
                    mac = (case dict_get device ''mac'' of None \<Rightarrow> ''Unknown'' | Some m \<Rightarrow> m),
                    online = (rc = 0)\<rparr>]"
    if ping: "run_ping env (ticks w) (ping_command env a) = Inr rc"
    using tick_logs [OF ip', of env interval t w] ping by (simp add: device_status_def)
  have all: "prefix (device_logs t) (device_logs (fst (snd res)))
               \<and> (\<forall>obs \<in> set (drop (length (device_logs t)) (device_logs (fst (snd res)))).
                     ip obs = a
                     \<and> mac obs = (case dict_get device ''mac'' of
                                    None \<Rightarrow> ''Unknown'' | Some m \<Rightarrow> m))"
    if "track_loop env device interval duration start t w = Some res" for res
    using loop_logs_grow [OF ip' that] by blast
  from one all show ?thesis by blast
qed

theorem observation_fields_witness:
  "device_logs (fst (snd (track_tick scenario_env scenario_device 60 fresh_tracker initial_world)))
     = [\<lparr>timestamp = 0, ip = ''192.168.1.50'', mac = ''AA:BB:CC:DD:EE:FF'', online = True\<rparr>]
   \<and> device_logs (fst (snd (track_tick scenario_env [(''ip'', ''10.0.0.7'')] 60 fresh_tracker
                               initial_world)))
     = [\<lparr>timestamp = 0, ip = ''10.0.0.7'', mac = ''Unknown'', online = True\<rparr>]"
proof -
  have ping: "run_ping scenario_env (ticks initial_world) (ping_command scenario_env x) = Inr 0"
    for x by (simp add: scenario_env_def)
  have nomac: "dict_get [(''ip'', ''10.0.0.7'')] ''ip'' = Some ''10.0.0.7''"
    "dict_get [(''ip'', ''10.0.0.7'')] ''mac'' = None"
    by (simp_all add: dict_get_def)
  have z: "clock initial_world + ping_time scenario_env (ticks initial_world) = 0"
    "device_logs fresh_tracker = []"
    by (simp_all add: initial_world_def scenario_env_def fresh_tracker_def)
  from observation_fields [OF scenario_device_ip, of 60 scenario_env initial_world 0
      fresh_tracker 100 0] observation_fields [OF nomac(1), of 60 scenario_env initial_world 0
      fresh_tracker 100 0] ping
  show ?thesis by (simp add: z scenario_device_mac nomac(2))
qed

section \<open>Lines of the log file\<close>

lemma split_nonempty: "split_sep_acc sep cur s \<noteq> []"
  by (induction s arbitrary: cur) simp_all

lemma split_no_newline:
  "CHR 0x0A \<notin> set l \<Longrightarrow> split_sep_acc nl cur l = [cur @ l]"
  by (induction l arbitrary: cur) (simp_all add: nl_def)

lemma split_append_fragment:
  "CHR 0x0A \<notin> set l \<Longrightarrow>
     split_sep_acc nl cur (s @ l)
       = butlast (split_sep_acc nl cur s) @ [last (split_sep_acc nl cur s) @ l]"
proof (induction s arbitrary: cur)
  case Nil
  then show ?case by (simp add: split_no_newline)
next
  case (Cons c s)
  show ?case
  proof (cases "c = CHR 0x0A")
    case True
    then show ?thesis using Cons.IH [OF Cons.prems, of "[]"]
      by (simp add: nl_def split_nonempty)
  next
    case False
    then show ?thesis using Cons.IH [OF Cons.prems, of "cur @ [c]"]
      by (simp add: nl_def)
  qed
qed

lemma split_append_newline:
  "split_sep_acc nl cur (s @ nl) = split_sep_acc nl cur s @ [[]]"
proof (induction s arbitrary: cur)
  case Nil
  show ?case by (simp add: nl_def)
next
  case (Cons c s)
  show ?case
  proof (cases "c = CHR 0x0A")
    case True
    then show ?thesis using Cons.IH [of "[]"] by (simp add: nl_def)
  next
    case False
    then show ?thesis using Cons.IH [of "cur @ [c]"] by (simp add: nl_def)
  qed
qed

text \<open>
  Appending a whole line to a file that ends at a line boundary adds exactly this line;
  appending characters without a newline adds no line.
\<close>

lemma file_lines_append_line:
  assumes "CHR 0x0A \<notin> set l" "ends_at_line_boundary s"
  shows "file_lines (s @ l @ nl) = file_lines s @ [l] \<and> ends_at_line_boundary (s @ l @ nl)"
proof -
  have "split_sep nl (s @ l @ nl) = split_sep_acc nl [] ((s @ l) @ nl)"
    by (simp add: split_sep_def)
  also have "\<dots> = split_sep_acc nl [] (s @ l) @ [[]]" by (rule split_append_newline)
  also have "\<dots> = butlast (split_sep nl s) @ [last (split_sep nl s) @ l] @ [[]]"
    using split_append_fragment [OF assms(1), of "[]" s] by (simp add: split_sep_def)
  finally show ?thesis using assms(2)
    by (simp add: file_lines_def ends_at_line_boundary_def butlast_append)
qed

lemma file_lines_append_fragment:
  assumes "CHR 0x0A \<notin> set l"
  shows "file_lines (s @ l) = file_lines s"
  using split_append_fragment [OF assms, of "[]" s]
  by (simp add: file_lines_def split_sep_def butlast_append)

section \<open>A write that fails\<close>

text \<open>
  Claim C10. Within one iteration the observation is appended to \<open>device_logs\<close>
  before the log file is written: when the write fails, the exception leaves the
  \<open>try\<close> with the observation already in memory. The handler of the iteration
  catches it and prints the same kind of line as for a failed check; for an interval that
  \<open>time.sleep\<close> accepts the iteration ends without an exception, the loop goes on
  with the next iteration, and the observation stays in \<open>device_logs\<close> to the end
  of the run. No line for the observation is in the file: when \<open>open\<close> fails the
  files are as before, and when the write fails after the file was opened the file holds
  the first \<open>n\<close> characters of the line, which add no line as long as the newline
  was not written.
\<close>

theorem write_failure_keeps_observation:
  assumes ip: "dict_get device ''ip'' = Some a" and iv: "0 \<le> interval"
    and acc: "sleep_error env interval = None"
    and ping: "run_ping env (ticks w) (ping_command env a) = Inr rc"
  shows "(write_error env (ticks w) = Some (OpenFails e) \<longrightarrow>
            track_try env device t w =
              (Some e, t\<lparr>device_logs := device_logs t @ [device_status env device a rc w]\<rparr>,
               w\<lparr>clock := clock w + ping_time env (ticks w)\<rparr>)
            \<and> track_tick env device interval t w =
              (None, t\<lparr>device_logs := device_logs t @ [device_status env device a rc w]\<rparr>,
               w\<lparr>clock := clock w + ping_time env (ticks w) + interval + oversleep env (ticks w),
                 ticks := Suc (ticks w),
                 console := console w @ [''Error tracking device '' @ a @ '': '' @ str_exn e]\<rparr>)
            \<and> files (snd (snd (track_tick env device interval t w))) = files w)
         \<and> (write_error env (ticks w) = Some (WriteFails e n) \<longrightarrow>
            track_try env device t w =
              (Some e, t\<lparr>device_logs := device_logs t @ [device_status env device a rc w]\<rparr>,
               w\<lparr>clock := clock w + ping_time env (ticks w),
                 files := (files w)(log_file t \<mapsto>
                    file_content w (log_file t)
                    @ take n (json_dumps env (device_status env device a rc w) @ nl))\<rparr>)
            \<and> track_tick env device interval t w =
              (None, t\<lparr>device_logs := device_logs t @ [device_status env device a rc w]\<rparr>,
               w\<lparr>clock := clock w + ping_time env (ticks w) + interval + oversleep env (ticks w),
                 ticks := Suc (ticks w),
                 files := (files w)(log_file t \<mapsto>
                    file_content w (log_file t)
                    @ take n (json_dumps env (device_status env device a rc w) @ nl)),
                 console := console w @ [''Error tracking device '' @ a @ '': '' @ str_exn e]\<rparr>)
            \<and> (n \<le> length (json_dumps env (device_status env device a rc w))
                 \<and> CHR 0x0A \<notin> set (json_dumps env (device_status env device a rc w)) \<longrightarrow>
                 file_lines (file_content (snd (snd (track_tick env device interval t w)))
                               (log_file t))
                   = file_lines (file_content w (log_file t))))
         \<and> (write_error env (ticks w) \<noteq> None \<and> clock w - start < duration \<longrightarrow>
              track_loop env device interval duration start t w =
                track_loop env device interval duration start
                  (t\<lparr>device_logs := device_logs t @ [device_status env device a rc w]\<rparr>)
                  (snd (snd (track_tick env device interval t w)))
              \<and> (\<forall>res. track_loop env device interval duration start t w = Some res \<longrightarrow>
                    prefix (device_logs t @ [device_status env device a rc w])
                      (device_logs (fst (snd res)))))"
proof -
  let ?obs = "device_status env device a rc w"
  let ?t1 = "t\<lparr>device_logs := device_logs t @ [?obs]\<rparr>"
  from ip have ip': "map_of device ''ip'' = Some a" by (simp add: dict_get_def)
  have opened: "track_try env device t w =
              (Some e, ?t1, w\<lparr>clock := clock w + ping_time env (ticks w)\<rparr>)
            \<and> track_tick env device interval t w =
              (None, ?t1,
               w\<lparr>clock := clock w + ping_time env (ticks w) + interval + oversleep env (ticks w),
                 ticks := Suc (ticks w),
                 console := console w @ [''Error tracking device '' @ a @ '': '' @ str_exn e]\<rparr>)
            \<and> files (snd (snd (track_tick env device interval t w))) = files w"
    if wr: "write_error env (ticks w) = Some (OpenFails e)"
    using try_open_raises [OF ip' ping wr, of t] tick_open_raises [OF ip' ping wr iv acc, of t]
    by simp
  have written: "track_try env device t w =
              (Some e, ?t1,
               w\<lparr>clock := clock w + ping_time env (ticks w),
                 files := (files w)(log_file t \<mapsto>
                    file_content w (log_file t) @ take n (json_dumps env ?obs @ nl))\<rparr>)
            \<and> track_tick env device interval t w =
              (None, ?t1,
               w\<lparr>clock := clock w + ping_time env (ticks w) + interval + oversleep env (ticks w),
                 ticks := Suc (ticks w),
                 files := (files w)(log_file t \<mapsto>
                    file_content w (log_file t) @ take n (json_dumps env ?obs @ nl)),
                 console := console w @ [''Error tracking device '' @ a @ '': '' @ str_exn e]\<rparr>)
            \<and> (n \<le> length (json_dumps env ?obs) \<and> CHR 0x0A \<notin> set (json_dumps env ?obs) \<longrightarrow>
                 file_lines (file_content (snd (snd (track_tick env device interval t w)))
                               (log_file t))
                   = file_lines (file_content w (log_file t)))"
    if wr: "write_error env (ticks w) = Some (WriteFails e n)"
  proof -
    note tr = try_write_raises [OF ip' ping wr, of t]
    note tk = tick_write_raises [OF ip' ping wr iv acc, of t]
    have "file_lines (file_content (snd (snd (track_tick env device interval t w))) (log_file t))
            = file_lines (file_content w (log_file t))"
      if short: "n \<le> length (json_dumps env ?obs)"
        and nonl: "CHR 0x0A \<notin> set (json_dumps env ?obs)"
    proof -
      from nonl have "CHR 0x0A \<notin> set (take n (json_dumps env ?obs))"
        by (auto dest: in_set_takeD)
      from file_lines_append_fragment [OF this, of "file_content w (log_file t)"] short
      show ?thesis by (simp add: tk file_content_def)
    qed
    with tr tk show ?thesis by blast
  qed
  have cont: "track_loop env device interval duration start t w =
                track_loop env device interval duration start ?t1
                  (snd (snd (track_tick env device interval t w)))
              \<and> (\<forall>res. track_loop env device interval duration start t w = Some res \<longrightarrow>
                    prefix (device_logs t @ [?obs]) (device_logs (fst (snd res))))"
    if failed: "write_error env (ticks w) \<noteq> None" and guard: "clock w - start < duration"
  proof -
    from failed obtain wf where wf: "write_error env (ticks w) = Some wf" by auto
    have "\<exists>w'. track_tick env device interval t w = (None, ?t1, w')"
      using wf tick_open_raises [OF ip' ping _ iv acc, of _ t]
        tick_write_raises [OF ip' ping _ iv acc, of _ _ t]
      by (cases wf) auto
    then obtain w' where tick: "track_tick env device interval t w = (None, ?t1, w')" by blast
    have step: "track_loop env device interval duration start t w =
                track_loop env device interval duration start ?t1 w'"
      by (rule loop_step [OF guard tick])
    have "prefix (device_logs t @ [?obs]) (device_logs (fst (snd res)))"
      if "track_loop env device interval duration start t w = Some res" for res
    proof -
      from that step have "track_loop env device interval duration start ?t1 w' = Some res"
        by simp
      from loop_logs_grow [OF ip' this] show ?thesis by simp
    qed
    with step tick show ?thesis by simp
  qed
  from opened written cont show ?thesis by blast
qed

theorem write_failure_keeps_observation_witness:
  "track_tick failing_write_env scenario_device 60 fresh_tracker initial_world =
     (None,
      fresh_tracker\<lparr>device_logs :=
        [\<lparr>timestamp = 0, ip = ''192.168.1.50'', mac = ''AA:BB:CC:DD:EE:FF'', online = True\<rparr>]\<rparr>,
      initial_world\<lparr>clock := 60, ticks := 1,
        console := [''Error tracking device 192.168.1.50: [Errno 13] Permission denied'']\<rparr>)
   \<and> files (snd (snd (track_tick failing_write_env scenario_device 60 fresh_tracker initial_world)))
       ''device_log.txt'' = None
   \<and> track_loop failing_write_env scenario_device 60 100 0 fresh_tracker initial_world =
       Some (None,
         fresh_tracker\<lparr>device_logs :=
           [\<lparr>timestamp = 0, ip = ''192.168.1.50'', mac = ''AA:BB:CC:DD:EE:FF'', online = True\<rparr>,
            \<lparr>timestamp = 60, ip = ''192.168.1.50'', mac = ''AA:BB:CC:DD:EE:FF'', online = True\<rparr>]\<rparr>,
         initial_world\<lparr>clock := 120, ticks := 2,
           console := [''Error tracking device 192.168.1.50: [Errno 13] Permission denied'',
                       ''Error tracking device 192.168.1.50: [Errno 13] Permission denied'']\<rparr>)
   \<and> file_content
        (snd (snd (track_tick partial_write_env scenario_device 60 fresh_tracker initial_world)))
        ''device_log.txt'' = ''{''
   \<and> file_lines (file_content
        (snd (snd (track_tick partial_write_env scenario_device 60 fresh_tracker initial_world)))
        ''device_log.txt'') = []"
proof -
  let ?E = failing_write_env
  let ?e = "OSError ''[Errno 13] Permission denied''"
  let ?m = "''Error tracking device 192.168.1.50: [Errno 13] Permission denied''"
  have ping: "run_ping ?E (ticks w) (ping_command ?E ''192.168.1.50'') = Inr 0" for w
    by (simp add: failing_write_env_def scenario_env_def)
  have wr: "write_error ?E (ticks w) = Some (OpenFails ?e)" for w
    by (simp add: failing_write_env_def)
  have acc: "sleep_error ?E 60 = None"
    by (simp add: failing_write_env_def scenario_env_def)
  have st: "device_status ?E scenario_device ''192.168.1.50'' 0 w
      = \<lparr>timestamp = clock w, ip = ''192.168.1.50'', mac = ''AA:BB:CC:DD:EE:FF'', online = True\<rparr>"
    for w
    by (simp add: device_status_def scenario_device_mac failing_write_env_def scenario_env_def)
  have times: "ping_time ?E k = 0" "oversleep ?E k = 0" for k
    by (simp_all add: failing_write_env_def scenario_env_def)
  note inst = write_failure_keeps_observation [OF scenario_device_ip _ acc ping,
      where e = ?e and start = 0 and duration = 100]
  have tick: "track_tick ?E scenario_device 60 t w =
      (None,
       t\<lparr>device_logs := device_logs t @
          [\<lparr>timestamp = clock w, ip = ''192.168.1.50'', mac = ''AA:BB:CC:DD:EE:FF'',
            online = True\<rparr>]\<rparr>,
       w\<lparr>clock := clock w + 60, ticks := Suc (ticks w), console := console w @ [?m]\<rparr>)"
    for t w
    using inst [of w t] wr [of w] by (simp add: st times)
  have untouched: "files (snd (snd (track_tick ?E scenario_device 60 t w))) = files w" for t w
    using inst [of w t] wr [of w] by simp
  have step: "track_loop ?E scenario_device 60 100 0 t w =
      track_loop ?E scenario_device 60 100 0
        (t\<lparr>device_logs := device_logs t @
          [\<lparr>timestamp = clock w, ip = ''192.168.1.50'', mac = ''AA:BB:CC:DD:EE:FF'',
            online = True\<rparr>]\<rparr>)
        (w\<lparr>clock := clock w + 60, ticks := Suc (ticks w), console := console w @ [?m]\<rparr>)"
    if "clock w < 100" for t w
    using inst [of w t] wr [of w] that by (simp add: st tick)
  have a: "track_tick ?E scenario_device 60 fresh_tracker initial_world =
     (None,
      fresh_tracker\<lparr>device_logs :=
        [\<lparr>timestamp = 0, ip = ''192.168.1.50'', mac = ''AA:BB:CC:DD:EE:FF'', online = True\<rparr>]\<rparr>,
      initial_world\<lparr>clock := 60, ticks := 1, console := [?m]\<rparr>)"
    by (simp add: tick) (simp add: initial_world_def fresh_tracker_def)
  have b: "files (snd (snd (track_tick ?E scenario_device 60 fresh_tracker initial_world)))
       ''device_log.txt'' = None"
    by (simp add: untouched initial_world_def)
  have c: "track_loop ?E scenario_device 60 100 0 fresh_tracker initial_world =
       Some (None,
         fresh_tracker\<lparr>device_logs :=
           [\<lparr>timestamp = 0, ip = ''192.168.1.50'', mac = ''AA:BB:CC:DD:EE:FF'', online = True\<rparr>,
            \<lparr>timestamp = 60, ip = ''192.168.1.50'', mac = ''AA:BB:CC:DD:EE:FF'', online = True\<rparr>]\<rparr>,
         initial_world\<lparr>clock := 120, ticks := 2, console := [?m, ?m]\<rparr>)"
  proof -
    let ?t1 = "fresh_tracker\<lparr>device_logs :=
        [\<lparr>timestamp = 0, ip = ''192.168.1.50'', mac = ''AA:BB:CC:DD:EE:FF'', online = True\<rparr>]\<rparr>"
    let ?w1 = "initial_world\<lparr>clock := 60, ticks := 1, console := [?m]\<rparr>"
    let ?t2 = "fresh_tracker\<lparr>device_logs :=
           [\<lparr>timestamp = 0, ip = ''192.168.1.50'', mac = ''AA:BB:CC:DD:EE:FF'', online = True\<rparr>,
            \<lparr>timestamp = 60, ip = ''192.168.1.50'', mac = ''AA:BB:CC:DD:EE:FF'', online = True\<rparr>]\<rparr>"
    let ?w2 = "initial_world\<lparr>clock := 120, ticks := 2, console := [?m, ?m]\<rparr>"
    have "track_loop ?E scenario_device 60 100 0 fresh_tracker initial_world
            = track_loop ?E scenario_device 60 100 0 ?t1 ?w1"
      using step [of initial_world fresh_tracker]
      by (simp add: initial_world_def fresh_tracker_def)
    also have "\<dots> = track_loop ?E scenario_device 60 100 0 ?t2 ?w2"
      using step [of ?w1 ?t1] by (simp add: initial_world_def fresh_tracker_def numeral_2_eq_2)
    also have "\<dots> = Some (None, ?t2, ?w2)"
      by (rule loop_exit) simp
    finally show ?thesis .
  qed
  let ?P = partial_write_env
  have pping: "run_ping ?P (ticks initial_world) (ping_command ?P ''192.168.1.50'') = Inr 0"
    by (simp add: partial_write_env_def scenario_env_def)
  have pwr: "write_error ?P (ticks initial_world)
               = Some (WriteFails (OSError ''[Errno 27] File too large'') 1)"
    by (simp add: partial_write_env_def)
  have pacc: "sleep_error ?P 60 = None"
    by (simp add: partial_write_env_def scenario_env_def)
  have pjson: "json_dumps ?P obs = ''{}''" for obs
    by (simp add: partial_write_env_def scenario_env_def)
  have iv60: "(0::real) \<le> 60" by simp
  note pinst = write_failure_keeps_observation [OF scenario_device_ip iv60 pacc pping,
      where e = "OSError ''[Errno 27] File too large''" and n = 1 and t = fresh_tracker
        and start = 0 and duration = 100]
  have pre: "1 \<le> length (json_dumps ?P obs) \<and> CHR 0x0A \<notin> set (json_dumps ?P obs)" for obs
    by (simp add: pjson)
  have lf: "log_file fresh_tracker = ''device_log.txt''" by (simp add: fresh_tracker_def)
  from pinst pwr have pfiles:
    "files (snd (snd (track_tick ?P scenario_device 60 fresh_tracker initial_world)))
       = (files initial_world)(log_file fresh_tracker \<mapsto>
            file_content initial_world (log_file fresh_tracker)
            @ take 1 (json_dumps ?P
                (device_status ?P scenario_device ''192.168.1.50'' 0 initial_world) @ nl))"
    by simp
  have d: "file_content
        (snd (snd (track_tick ?P scenario_device 60 fresh_tracker initial_world)))
        ''device_log.txt'' = ''{''"
    by (simp add: file_content_def pfiles pjson lf) (simp add: initial_world_def)
  from pinst pwr pre have
    "file_lines (file_content
        (snd (snd (track_tick ?P scenario_device 60 fresh_tracker initial_world)))
        (log_file fresh_tracker))
       = file_lines (file_content initial_world (log_file fresh_tracker))"
    by blast
  then have e: "file_lines (file_content
        (snd (snd (track_tick ?P scenario_device 60 fresh_tracker initial_world)))
        ''device_log.txt'') = file_lines (file_content initial_world ''device_log.txt'')"
    by (simp add: lf)
  have "file_lines (file_content initial_world ''device_log.txt'') = []" by code_simp
  with a b c d e show ?thesis by simp
qed

section \<open>Memory and log file\<close>

lemma log_in_sync_cong:
  assumes "device_logs t' = device_logs t" "log_file t' = log_file t" "files w' = files w"
  shows "log_in_sync env t' w' = log_in_sync env t w"
  using assms by (simp add: log_in_sync_def file_content_def)

lemma try_keeps_sync:
  assumes sync: "log_in_sync env t w" and wr: "write_error env (ticks w) = None"
    and single: "\<forall>obs. CHR 0x0A \<notin> set (json_dumps env obs)"
  shows "log_in_sync env (fst (snd (track_try env device t w)))
           (snd (snd (track_try env device t w)))"
proof (cases "map_of device ''ip''")
  case None
  then show ?thesis using sync by (simp add: try_no_ip)
next
  case (Some a)
  show ?thesis
  proof (cases "run_ping env (ticks w) (ping_command env a)")
    case (Inl e)
    have "log_in_sync env t (w\<lparr>clock := clock w + ping_time env (ticks w)\<rparr>) = log_in_sync env t w"
      by (rule log_in_sync_cong) simp_all
    then show ?thesis using sync by (simp add: try_ping_raises [OF Some Inl])
  next
    case (Inr rc)
    let ?obs = "device_status env device a rc w"
    let ?old = "file_content w (log_file t)"
    from single have nonl: "CHR 0x0A \<notin> set (json_dumps env ?obs)" by blast
    from sync have bound: "ends_at_line_boundary ?old"
      and suf: "suffix (map (json_dumps env) (device_logs t)) (file_lines ?old)"
      by (simp_all add: log_in_sync_def)
    from file_lines_append_line [OF nonl bound]
    have lines: "file_lines (?old @ json_dumps env ?obs @ nl) = file_lines ?old @ [json_dumps env ?obs]"
      and bound': "ends_at_line_boundary (?old @ json_dumps env ?obs @ nl)"
      by simp_all
    from suf have "suffix (map (json_dumps env) (device_logs t) @ [json_dumps env ?obs])
                     (file_lines ?old @ [json_dumps env ?obs])"
      by simp
    with lines bound' show ?thesis
      by (simp add: try_ok [OF Some Inr wr] log_in_sync_def file_content_def)
  qed
qed

lemma tick_keeps_sync:
  assumes "log_in_sync env t w" "write_error env (ticks w) = None"
    "\<forall>obs. CHR 0x0A \<notin> set (json_dumps env obs)"
  shows "log_in_sync env (fst (snd (track_tick env device interval t w)))
           (snd (snd (track_tick env device interval t w)))"
proof -
  have "log_in_sync env (fst (snd (track_tick env device interval t w)))
           (snd (snd (track_tick env device interval t w)))
        = log_in_sync env (fst (snd (track_try env device t w)))
           (snd (snd (track_try env device t w)))"
    by (rule log_in_sync_cong) (simp_all add: tick_keeps_try_state)
  then show ?thesis using try_keeps_sync [OF assms] by simp
qed

lemma loop_keeps_sync:
  assumes wr: "\<forall>k. write_error env k = None"
    and single: "\<forall>obs. CHR 0x0A \<notin> set (json_dumps env obs)"
    and ret: "track_loop env device interval duration start t w = Some res"
  shows "log_in_sync env t w \<longrightarrow> log_in_sync env (fst (snd res)) (snd (snd res))"
proof -
  let ?P = "\<lambda>env' (device' :: device) (interval' :: real) (duration' :: real) (start' :: real)
               t w res.
     env' = env \<longrightarrow> log_in_sync env t w \<longrightarrow> log_in_sync env (fst (snd res)) (snd (snd res))"
  have "?P env device interval duration start t w res"
  proof (rule track_loop.raw_induct [where P = ?P, OF _ ret])
    fix f env' device' interval' duration' start' t w res
    assume IH: "\<And>env' device' interval' duration' start' t w res.
        f env' device' interval' duration' start' t w = Some res \<Longrightarrow>
        ?P env' device' interval' duration' start' t w res"
      and eq: "(if clock w - start' < duration' then
                 (case track_tick env' device' interval' t w of
                    (None, t', w') \<Rightarrow> f env' device' interval' duration' start' t' w'
                  | (Some e, t', w') \<Rightarrow> Some (Some e, t', w'))
               else Some (None, t, w)) = Some res"
    show "?P env' device' interval' duration' start' t w res"
    proof (intro impI)
      assume same: "env' = env" and sync: "log_in_sync env t w"
      show "log_in_sync env (fst (snd res)) (snd (snd res))"
      proof (cases "clock w - start' < duration'")
        case False
        with eq have "res = (None, t, w)" by simp
        with sync show ?thesis by simp
      next
        case True
        obtain r t1 w1 where tick: "track_tick env device' interval' t w = (r, t1, w1)"
          by (cases "track_tick env device' interval' t w")
        from wr have "write_error env (ticks w) = None" by blast
        from tick_keeps_sync [OF sync this single, of device' interval'] tick
        have sync1: "log_in_sync env t1 w1" by simp
        show ?thesis
        proof (cases r)
          case None
          with eq same True tick have "f env device' interval' duration' start' t1 w1 = Some res"
            by simp
          from IH [OF this] sync1 show ?thesis by simp
        next
          case (Some e)
          with eq same True tick have "res = (Some e, t1, w1)" by auto
          with sync1 show ?thesis by simp
        qed
      qed
    qed
  qed
  then show ?thesis by simp
qed

text \<open>
  Claim C2, as amended. If before an iteration the log file ends at a line boundary and
  every observation of \<open>device_logs\<close> has its JSON line in it, in the same order
  (the last lines of the file are these), then the same holds after the iteration,
  provided its write to the log file does not fail; an iteration whose check raises is
  included. Hence a run of the loop in which no write fails keeps the correspondence.
  (\<open>json.dumps\<close> writes no newline into its output, which is the second hypothesis.)
\<close>

theorem log_sync_kept_when_write_succeeds:
  assumes "log_in_sync env t w" and "\<forall>obs. CHR 0x0A \<notin> set (json_dumps env obs)"
  shows "(write_error env (ticks w) = None \<longrightarrow>
            log_in_sync env (fst (snd (track_tick env device interval t w)))
              (snd (snd (track_tick env device interval t w))))
         \<and> ((\<forall>k. write_error env k = None) \<longrightarrow>
              (\<forall>res. track_loop env device interval duration start t w = Some res \<longrightarrow>
                 log_in_sync env (fst (snd res)) (snd (snd res))))"
  using assms tick_keeps_sync [OF assms(1) _ assms(2)] loop_keeps_sync [OF _ assms(2)] by blast

theorem log_sync_kept_when_write_succeeds_witness:
  "log_in_sync scenario_env fresh_tracker initial_world
   \<and> log_in_sync scenario_env
        (fst (snd (track_tick scenario_env scenario_device 60 fresh_tracker initial_world)))
        (snd (snd (track_tick scenario_env scenario_device 60 fresh_tracker initial_world)))
   \<and> file_content
        (snd (snd (track_tick scenario_env scenario_device 60 fresh_tracker initial_world)))
        ''device_log.txt'' = ''{}'' @ nl"
proof -
  have before: "log_in_sync scenario_env fresh_tracker initial_world" by code_simp
  have single: "\<forall>obs. CHR 0x0A \<notin> set (json_dumps scenario_env obs)"
    by (simp add: scenario_env_def)
  have wr: "write_error scenario_env k = None" for k
    by (simp add: scenario_env_def)
  have ip: "map_of scenario_device ''ip'' = Some ''192.168.1.50''"
    by (simp add: scenario_device_def)
  have ping: "run_ping scenario_env (ticks initial_world)
                (ping_command scenario_env ''192.168.1.50'') = Inr 0"
    by (simp add: scenario_env_def)
  have content: "file_content
        (snd (snd (track_tick scenario_env scenario_device 60 fresh_tracker initial_world)))
        ''device_log.txt'' = ''{}'' @ nl"
    by (simp add: tick_ok [OF ip ping wr _ scenario_sleep_60] file_content_def)
       (simp add: fresh_tracker_def initial_world_def scenario_env_def)
  from log_sync_kept_when_write_succeeds [OF before single, of scenario_device 60 100 0]
    wr [of "ticks initial_world"]
  have "log_in_sync scenario_env
        (fst (snd (track_tick scenario_env scenario_device 60 fresh_tracker initial_world)))
        (snd (snd (track_tick scenario_env scenario_device 60 fresh_tracker initial_world)))"
    by blast
  with before content show ?thesis by (intro conjI)
qed

text \<open>
  Claim C2 as stated, with "every tick, including ticks in which an error occurs", fails:
  after an iteration whose write raises, memory holds one observation and the log file
  does not exist.
\<close>

theorem log_sync_broken_by_failed_write:
  "log_in_sync failing_write_env fresh_tracker initial_world
   \<and> fst (track_tick failing_write_env scenario_device 60 fresh_tracker initial_world) = None
   \<and> length (device_logs
        (fst (snd (track_tick failing_write_env scenario_device 60 fresh_tracker initial_world))))
       = 1
   \<and> files (snd (snd (track_tick failing_write_env scenario_device 60 fresh_tracker
                        initial_world))) ''device_log.txt'' = None
   \<and> \<not> log_in_sync failing_write_env
        (fst (snd (track_tick failing_write_env scenario_device 60 fresh_tracker initial_world)))
        (snd (snd (track_tick failing_write_env scenario_device 60 fresh_tracker initial_world)))"
proof -
  have ip: "map_of scenario_device ''ip'' = Some ''192.168.1.50''"
    by (simp add: scenario_device_def)
  have ping: "run_ping failing_write_env (ticks initial_world)
                (ping_command failing_write_env ''192.168.1.50'') = Inr 0"
    by (simp add: failing_write_env_def scenario_env_def)
  have wr: "write_error failing_write_env (ticks initial_world)
              = Some (OpenFails (OSError ''[Errno 13] Permission denied''))"
    by (simp add: failing_write_env_def)
  have acc: "sleep_error failing_write_env 60 = None"
    by (simp add: failing_write_env_def scenario_env_def)
  note tk = tick_open_raises [OF ip ping wr _ acc, of fresh_tracker]
  have before: "log_in_sync failing_write_env fresh_tracker initial_world" by code_simp
  show ?thesis
    by (simp add: tk before)
       (simp add: log_in_sync_def file_content_def fresh_tracker_def initial_world_def
          file_lines_def split_sep_def)
qed

section \<open>Three iterations\<close>

lemma tick_observes:
  assumes ip: "map_of device ''ip'' = Some a" and iv: "0 \<le> interval"
    and acc: "sleep_error env interval = None"
    and pings: "\<forall>k. \<exists>rc. run_ping env k (ping_command env a) = Inr rc"
  shows "\<exists>t' w' rc. track_tick env device interval t w = (None, t', w')
           \<and> clock w' = clock w + ping_time env (ticks w) + interval + oversleep env (ticks w)
           \<and> ticks w' = Suc (ticks w)
           \<and> device_logs t' = device_logs t @ [device_status env device a rc w]"
proof -
  from pings obtain rc where rc: "run_ping env (ticks w) (ping_command env a) = Inr rc"
    by blast
  from tick_summary [OF ip iv acc, of t w] rc show ?thesis by auto
qed

text \<open>
  Claim C3. With a scripted reachability check (every check returns an exit code), an
  interval \<open>i > 0\<close> that \<open>time.sleep\<close> accepts, a clock that does not run
  backwards, and a duration of at most \<open>3 * i\<close> that exceeds \<open>2 * i\<close> by
  more than the time the first two checks and oversleeps take (negligible check time,
  duration slightly less than \<open>3 * i\<close>), the poller returns normally after exactly
  three iterations: \<open>device_logs\<close> has grown by exactly three observations, whose
  timestamps are strictly increasing.
\<close>

theorem three_observations:
  assumes ip: "dict_get device ''ip'' = Some a"
    and iv: "0 < interval"
    and acc: "sleep_error env interval = None"
    and nonneg: "\<forall>k. 0 \<le> ping_time env k \<and> 0 \<le> oversleep env k"
    and pings: "\<forall>k. \<exists>rc. run_ping env k (ping_command env a) = Inr rc"
    and negl: "2 * interval + (ping_time env (ticks w) + oversleep env (ticks w))
                 + (ping_time env (Suc (ticks w)) + oversleep env (Suc (ticks w))) < duration"
    and upper: "duration \<le> 3 * interval"
  shows "\<exists>t' w' o1 o2 o3.
           track_device env device interval duration t w = Some (None, t', w')
           \<and> device_logs t' = device_logs t @ [o1, o2, o3]
           \<and> timestamp o1 < timestamp o2 \<and> timestamp o2 < timestamp o3"
proof -
  let ?w0 = "print (''Starting tracking for device: '' @ repr_device env device) w"
  let ?loop = "track_loop env device interval duration (clock w)"
  from ip have ip': "map_of device ''ip'' = Some a" by (simp add: dict_get_def)
  from iv have iv0: "0 \<le> interval" by simp
  have p: "0 \<le> ping_time env k" and s: "0 \<le> oversleep env k" for k
    using nonneg by blast+
  note p0 = p [of "ticks w"] and s0 = s [of "ticks w"]
  note p1 = p [of "Suc (ticks w)"] and s1 = s [of "Suc (ticks w)"]
  note p2 = p [of "Suc (Suc (ticks w))"] and s2 = s [of "Suc (Suc (ticks w))"]
  from tick_observes [OF ip' iv0 acc pings, of t ?w0] obtain t1 w1 rc0
    where tick0: "track_tick env device interval t ?w0 = (None, t1, w1)"
      and c1: "clock w1 = clock w + ping_time env (ticks w) + interval + oversleep env (ticks w)"
      and k1: "ticks w1 = Suc (ticks w)"
      and l1: "device_logs t1 = device_logs t @ [device_status env device a rc0 ?w0]"
    by auto
  from tick_observes [OF ip' iv0 acc pings, of t1 w1] obtain t2 w2 rc1
    where tick1: "track_tick env device interval t1 w1 = (None, t2, w2)"
      and c2: "clock w2 = clock w1 + ping_time env (ticks w1) + interval + oversleep env (ticks w1)"
      and k2: "ticks w2 = Suc (ticks w1)"
      and l2: "device_logs t2 = device_logs t1 @ [device_status env device a rc1 w1]"
    by auto
  from tick_observes [OF ip' iv0 acc pings, of t2 w2] obtain t3 w3 rc2
    where tick2: "track_tick env device interval t2 w2 = (None, t3, w3)"
      and c3: "clock w3 = clock w2 + ping_time env (ticks w2) + interval + oversleep env (ticks w2)"
      and k3: "ticks w3 = Suc (ticks w2)"
      and l3: "device_logs t3 = device_logs t2 @ [device_status env device a rc2 w2]"
    by auto
  have g0: "clock ?w0 - clock w < duration"
    using negl iv p0 s0 p1 s1 by simp
  have g1: "clock w1 - clock w < duration"
    using negl iv p0 s0 p1 s1 c1 by simp
  have g2: "clock w2 - clock w < duration"
    using negl c1 c2 k1 by simp
  have g3: "\<not> clock w3 - clock w < duration"
    using upper c1 c2 c3 k1 k2 p0 s0 p1 s1 p2 s2 by simp
  have "?loop t ?w0 = ?loop t1 w1" by (rule loop_step [OF g0 tick0])
  also have "\<dots> = ?loop t2 w2" by (rule loop_step [OF g1 tick1])
  also have "\<dots> = ?loop t3 w3" by (rule loop_step [OF g2 tick2])
  also have "\<dots> = Some (None, t3, w3)" by (rule loop_exit [OF g3])
  finally have run: "track_device env device interval duration t w = Some (None, t3, w3)"
    by (simp add: track_device_def Let_def)
  let ?o1 = "device_status env device a rc0 ?w0"
  let ?o2 = "device_status env device a rc1 w1"
  let ?o3 = "device_status env device a rc2 w2"
  have logs: "device_logs t3 = device_logs t @ [?o1, ?o2, ?o3]"
    using l1 l2 l3 by simp
  have ts1: "timestamp ?o1 < timestamp ?o2"
    using c1 k1 iv s0 p1 by (simp add: device_status_def)
  have ts2: "timestamp ?o2 < timestamp ?o3"
    using c2 k2 k1 iv s1 p2 by (simp add: device_status_def)
  from run logs ts1 ts2 show ?thesis by blast
qed

theorem three_observations_witness:
  "\<exists>t' w' o1 o2 o3.
     track_device scenario_env scenario_device 60 179 fresh_tracker initial_world
       = Some (None, t', w')
     \<and> device_logs t' = device_logs fresh_tracker @ [o1, o2, o3]
     \<and> timestamp o1 < timestamp o2 \<and> timestamp o2 < timestamp o3"
proof -
  have h1: "(0::real) < 60" by simp
  have h2: "\<forall>k. 0 \<le> ping_time scenario_env k \<and> 0 \<le> oversleep scenario_env k"
    by (simp add: scenario_env_def)
  have h3: "\<forall>k. \<exists>rc. run_ping scenario_env k (ping_command scenario_env ''192.168.1.50'') = Inr rc"
    by (simp add: scenario_env_def)
  have h4: "2 * 60 + (ping_time scenario_env (ticks initial_world)
                      + oversleep scenario_env (ticks initial_world))
              + (ping_time scenario_env (Suc (ticks initial_world))
                      + oversleep scenario_env (Suc (ticks initial_world))) < (179::real)"
    by (simp add: scenario_env_def)
  have h5: "(179::real) \<le> 3 * 60" by simp
  show ?thesis
    by (rule three_observations [OF scenario_device_ip h1 scenario_sleep_60 h2 h3 h4 h5])
qed


end
